theory Spec2Isabelle
  imports Main "HOL-Library.Char_ord" "HOL-Library.List_Lexorder"
begin

section \<open>Python string helpers used by \<^verbatim>\<open>rash/database.py\<close>\<close>

text \<open>
  \<^verbatim>\<open>sep.join(xs)\<close>: the elements of \<open>xs\<close> with \<open>sep\<close> between neighbours.
\<close>

fun join :: "string \<Rightarrow> string list \<Rightarrow> string" where
  "join sep [] = []"
| "join sep [x] = x"
| "join sep (x # y # ys) = x @ sep @ join sep (y # ys)"

text \<open>
  \<^verbatim>\<open>s.split(c)\<close> for a one-character separator: always at least one field.
\<close>

fun split_on :: "char \<Rightarrow> string \<Rightarrow> string list" where
  "split_on c [] = [[]]"
| "split_on c (x # xs) =
     (if x = c then [] # split_on c xs
      else (case split_on c xs of
              [] \<Rightarrow> [[x]]
            | w # ws \<Rightarrow> (x # w) # ws))"

definition startswith :: "string \<Rightarrow> string \<Rightarrow> bool" where
  "startswith s p = (take (length p) s = p)"

definition endswith :: "string \<Rightarrow> string \<Rightarrow> bool" where
  "endswith s p = (length p \<le> length s \<and> drop (length s - length p) s = p)"

text \<open>
  A format template with the single hole \<^verbatim>\<open>{0}\<close> is kept as the text before and
  after the hole; \<^verbatim>\<open>template.format(name)\<close> fills it.
\<close>

type_synonym template = "string \<times> string"

definition format :: "template \<Rightarrow> string \<Rightarrow> string" where
  "format t name = fst t @ name @ snd t"

text \<open>
  Modelled from the spec: \<^verbatim>\<open>rash/utils/iterutils.py\<close> is missing from the sources.
  \<^verbatim>\<open>repeat(item, n)\<close> yields \<open>item\<close> exactly \<open>n\<close> times (one
  sub-condition per accepted pattern), and \<^verbatim>\<open>nonempty(it)\<close> tells whether the iterable
  reports at least one element (an existing match).
\<close>

definition repeat :: "'a \<Rightarrow> nat \<Rightarrow> 'a list" where
  "repeat item n = replicate n item"

definition nonempty :: "'a list \<Rightarrow> bool" where
  "nonempty it = (it \<noteq> [])"

section \<open>\<^verbatim>\<open>concat_expr\<close>\<close>

text \<open>
  \<^verbatim>\<open>expr = " {0} ".format(operator).join(conditions)\<close>;
  \<^verbatim>\<open>return ["({0})".format(expr)] if expr else []\<close>.
  The test is on the joined text, not on the list.
\<close>

definition concat_expr :: "string \<Rightarrow> string list \<Rightarrow> string list" where
  "concat_expr operator conditions =
     (let expr = join ('' '' @ operator @ '' '') conditions
      in if expr \<noteq> [] then [''('' @ expr @ '')''] else [])"

section \<open>\<^verbatim>\<open>os.path\<close> on POSIX, as far as \<^verbatim>\<open>normalize_directory\<close> needs it\<close>

text \<open>
  \<^verbatim>\<open>os.path.sep\<close> is \<^verbatim>\<open>"/"\<close>. The functions below follow \<^verbatim>\<open>posixpath.py\<close> of the
  Python standard library; the process's working directory, which \<^verbatim>\<open>abspath\<close> reads
  with \<^verbatim>\<open>os.getcwd()\<close>, is the explicit argument \<open>cwd\<close>.
\<close>

definition sep :: string where
  "sep = ''/''"

definition isabs :: "string \<Rightarrow> bool" where
  "isabs s = startswith s sep"

text \<open>
  \<^verbatim>\<open>posixpath.join(a, b)\<close> with one further component.
\<close>

definition path_join :: "string \<Rightarrow> string \<Rightarrow> string" where
  "path_join a b =
     (if startswith b sep then b
      else if a = [] \<or> endswith a sep then a @ b
      else a @ sep @ b)"

text \<open>
  \<^verbatim>\<open>initial_slashes\<close> of \<^verbatim>\<open>normpath\<close>: 0, 1 or 2; POSIX keeps exactly two leading
  slashes and treats three or more as one.
\<close>

definition initial_slashes :: "string \<Rightarrow> nat" where
  "initial_slashes path =
     (if startswith path sep then
        (if startswith path (sep @ sep) \<and> \<not> startswith path (sep @ sep @ sep) then 2 else 1)
      else 0)"

text \<open>
  The loop of \<^verbatim>\<open>normpath\<close> over the components; \<open>new_comps\<close> is the list being built.
\<close>

fun norm_comps :: "nat \<Rightarrow> string list \<Rightarrow> string list \<Rightarrow> string list" where
  "norm_comps ini new_comps [] = new_comps"
| "norm_comps ini new_comps (c # comps) =
     (if c = [] \<or> c = ''.'' then norm_comps ini new_comps comps
      else if c \<noteq> ''..'' \<or> (ini = 0 \<and> new_comps = [])
                \<or> (new_comps \<noteq> [] \<and> last new_comps = ''..'')
           then norm_comps ini (new_comps @ [c]) comps
      else if new_comps \<noteq> [] then norm_comps ini (butlast new_comps) comps
      else norm_comps ini new_comps comps)"

definition normpath :: "string \<Rightarrow> string" where
  "normpath path =
     (if path = [] then ''.''
      else
        (let ini = initial_slashes path;
             comps = norm_comps ini [] (split_on CHR ''/'' path);
             p = join sep comps;
             p' = (if ini \<noteq> 0 then concat (replicate ini sep) @ p else p)
         in if p' \<noteq> [] then p' else ''.''))"

definition abspath :: "string \<Rightarrow> string \<Rightarrow> string" where
  "abspath cwd path =
     (let path' = (if \<not> isabs path then path_join cwd path else path)
      in normpath path')"

section \<open>\<^verbatim>\<open>normalize_directory\<close>\<close>

definition normalize_directory :: "string \<Rightarrow> string \<Rightarrow> string" where
  "normalize_directory cwd path =
     (let path' = abspath cwd path
      in if endswith path' sep then take (length path' - length sep) path'
         else path')"

section \<open>Values bound to and stored by SQLite\<close>

text \<open>
  A Python value handed to \<^verbatim>\<open>execute\<close> as a bound parameter: \<^verbatim>\<open>None\<close>, an integer, a
  string, or \<open>PObj\<close>, any object the \<^verbatim>\<open>sqlite3\<close> module cannot bind (a list or a dict
  decoded from JSON, for instance); binding one raises \<^verbatim>\<open>InterfaceError\<close>.
  A stored value is \<^verbatim>\<open>NULL\<close>, an integer or a text.
\<close>

datatype pyval = PNone | PInt int | PStr string | PObj

datatype sqlval = SNull | SInt int | SText string

datatype error =
    ProgrammingError
  | InterfaceError
  | OperationalError
  | IntegrityError
  | ValueError string
  | ArgumentError string

fun adapt :: "pyval \<Rightarrow> error + sqlval" where
  "adapt PNone = Inr SNull"
| "adapt (PInt i) = Inr (SInt i)"
| "adapt (PStr s) = Inr (SText s)"
| "adapt PObj = Inl InterfaceError"

section \<open>The search compiler: \<^verbatim>\<open>_compile_sql_search_command_record\<close>\<close>

definition keys :: "string list" where
  "keys = [''command'', ''cwd'', ''terminal'', ''start'', ''stop'', ''exit_code'']"

definition columns0 :: "string list" where
  "columns0 = [''CL.command'', ''DL.directory'', ''TL.terminal'',
               ''start_time'', ''stop_time'', ''exit_code'']"

definition max_index :: nat where
  "max_index = 3"

text \<open>
  The local function \<^verbatim>\<open>add_or_match\<close> extends the two lists \<open>conditions\<close> and
  \<open>params\<close> of the enclosing call; here they are passed in and returned.
\<close>

definition add_or_match ::
  "template \<Rightarrow> string \<Rightarrow> pyval list \<Rightarrow> string list \<times> pyval list \<Rightarrow> string list \<times> pyval list"
where
  "add_or_match template name args cp =
     (case cp of (conditions, params) \<Rightarrow>
        (conditions @ concat_expr ''OR'' (repeat (format template name) (length args)),
         params @ args))"

definition glob_template :: template where
  "glob_template = (''glob(?, '', '')'')"

definition eq_template :: template where
  "eq_template = ([], '' = ?'')"

definition select_head :: string where
  "select_head = ''SELECT ''"

definition from_joins :: string where
  "from_joins = '' FROM command_history ''
     @ ''LEFT JOIN command_list AS CL ON command_id = CL.id ''
     @ ''LEFT JOIN directory_list AS DL ON directory_id = DL.id ''
     @ ''LEFT JOIN terminal_list AS TL ON terminal_id = TL.id ''"

definition order_limit :: string where
  "order_limit = '' ORDER BY start_time LIMIT ?''"

text \<open>
  The arguments are the process's working directory (for \<^verbatim>\<open>normalize_directory\<close>) and
  the keyword arguments \<open>limit\<close>, \<open>pattern\<close>, \<open>cwd\<close>, \<open>cwd_glob\<close>, \<open>unique\<close>; the result
  is \<^verbatim>\<open>(sql, params, keys)\<close>.
\<close>

definition compile_sql_search_command_record ::
  "string \<Rightarrow> int \<Rightarrow> string list \<Rightarrow> string list \<Rightarrow> string list \<Rightarrow> bool
     \<Rightarrow> string \<times> pyval list \<times> string list"
where
  "compile_sql_search_command_record wd limit pattern cwd cwd_glob unique =
     (let cp0 = ([], []);
          cp1 = add_or_match glob_template ''CL.command'' (map PStr pattern) cp0;
          cp2 = add_or_match glob_template ''DL.directory'' (map PStr cwd_glob) cp1;
          cp3 = add_or_match eq_template ''DL.directory''
                  (map PStr (map (normalize_directory wd) cwd)) cp2;
          conditions = fst cp3;
          params = snd cp3;
          where_part = (if conditions \<noteq> []
                        then ''WHERE '' @ join '' AND '' conditions @ '' '' else []);
          columns = (if unique
                     then columns0[max_index := format (''MAX('', '')'') (columns0 ! max_index)]
                     else columns0);
          group_by = (if unique then ''GROUP BY CL.command '' else []);
          sql = select_head @ join '', '' columns @ from_joins
                  @ where_part @ group_by @ order_limit
      in (sql, params @ [PInt limit], keys))"

section \<open>The store: tables, rows and the statements the importer executes\<close>

text \<open>
  Modelled from the spec: \<^verbatim>\<open>rash/schema.sql\<close> is missing from the sources.
  Every table has a store-assigned integer \<open>id\<close>, unique per
  table and returned as the row id of an insertion; no table carries a uniqueness
  constraint on its other columns. A row is its id and the columns the inserting
  statement names (none of them the id); a column it does not name reads as
  \<^verbatim>\<open>NULL\<close>. A value is stored
  as it was bound. The id SQLite assigns to a new row is one more than the largest id
  of the table.
\<close>

type_synonym row = "int \<times> (string \<times> sqlval) list"

type_synonym tables = "string \<Rightarrow> row list"

definition col :: "row \<Rightarrow> string \<Rightarrow> sqlval" where
  "col r c = (case map_of (snd r) c of None \<Rightarrow> SNull | Some v \<Rightarrow> v)"

text \<open>
  SQL comparison \<^verbatim>\<open>a = b\<close> is three-valued: unknown (\<open>None\<close>) as soon as a side is
  \<^verbatim>\<open>NULL\<close>. A \<^verbatim>\<open>WHERE\<close> clause keeps a row only when its condition is true.
\<close>

definition sql_eq :: "sqlval \<Rightarrow> sqlval \<Rightarrow> bool option" where
  "sql_eq a b = (if a = SNull \<or> b = SNull then None else Some (a = b))"

definition lastrowid :: "row list \<Rightarrow> int" where
  "lastrowid rows = fold max (map fst rows) 0 + 1"

text \<open>
  Binding a parameter list: the first value that cannot be bound raises.
\<close>

fun bind_all :: "pyval list \<Rightarrow> error + sqlval list" where
  "bind_all [] = Inr []"
| "bind_all (v # vs) =
     (case adapt v of
        Inl e \<Rightarrow> Inl e
      | Inr x \<Rightarrow> (case bind_all vs of Inl e \<Rightarrow> Inl e | Inr xs \<Rightarrow> Inr (x # xs)))"

text \<open>
  \<^verbatim>\<open>SELECT id FROM "table" WHERE "c1" = ? AND "c2" = ? ...\<close>: the ids of the rows all of
  whose named columns equal the bound values, in table order.
\<close>

definition select_ids :: "tables \<Rightarrow> string \<Rightarrow> (string \<times> sqlval) list \<Rightarrow> int list" where
  "select_ids t table kvs =
     map fst (filter (\<lambda>r. list_all (\<lambda>kv. sql_eq (col r (fst kv)) (snd kv) = Some True) kvs)
                (t table))"

text \<open>
  \<^verbatim>\<open>INSERT INTO "table" (c1, c2, ...) VALUES (?, ?, ...)\<close>: the new row id and the tables
  after the insertion.
\<close>

definition insert_row :: "tables \<Rightarrow> string \<Rightarrow> (string \<times> sqlval) list \<Rightarrow> int \<times> tables" where
  "insert_row t table kvs =
     (let i = lastrowid (t table)
      in (i, t(table := t table @ [(i, kvs)])))"

section \<open>The identity resolver: \<^verbatim>\<open>_get_maybe_new_id\<close> and its specialisations\<close>

text \<open>
  The functions of the importer run on a cursor of one open connection; they are
  written over the tables that connection sees and return them updated, together
  with the value returned or the exception raised. With no column at all the
  \<^verbatim>\<open>SELECT\<close> text ends in \<^verbatim>\<open>WHERE\<close> and SQLite rejects it.
\<close>

definition get_maybe_new_id ::
  "tables \<Rightarrow> string \<Rightarrow> (string \<times> pyval) list \<Rightarrow> (error + int) \<times> tables"
where
  "get_maybe_new_id t table columns =
     (let kvlist = columns;
          vals = map snd kvlist
      in if kvlist = [] then (Inl OperationalError, t)
         else
           (case bind_all vals of
              Inl e \<Rightarrow> (Inl e, t)
            | Inr bound \<Rightarrow>
                (case select_ids t table (zip (map fst kvlist) bound) of
                   id_val # _ \<Rightarrow> (Inr id_val, t)
                 | [] \<Rightarrow>
                     (let (i, t') = insert_row t table (zip (map fst kvlist) bound)
                      in (Inr i, t')))))"

definition get_maybe_new_command_id ::
  "tables \<Rightarrow> string option \<Rightarrow> (error + int option) \<times> tables"
where
  "get_maybe_new_command_id t command =
     (case command of
        None \<Rightarrow> (Inr None, t)
      | Some c \<Rightarrow>
          (case get_maybe_new_id t ''command_list'' [(''command'', PStr c)] of
             (Inl e, t') \<Rightarrow> (Inl e, t')
           | (Inr i, t') \<Rightarrow> (Inr (Some i), t')))"

definition get_maybe_new_directory_id ::
  "string \<Rightarrow> tables \<Rightarrow> string option \<Rightarrow> (error + int option) \<times> tables"
where
  "get_maybe_new_directory_id wd t directory =
     (case directory of
        None \<Rightarrow> (Inr None, t)
      | Some d \<Rightarrow>
          (let directory' = normalize_directory wd d
           in case get_maybe_new_id t ''directory_list'' [(''directory'', PStr directory')] of
                (Inl e, t') \<Rightarrow> (Inl e, t')
              | (Inr i, t') \<Rightarrow> (Inr (Some i), t')))"

definition get_maybe_new_terminal_id ::
  "tables \<Rightarrow> string option \<Rightarrow> (error + int option) \<times> tables"
where
  "get_maybe_new_terminal_id t terminal =
     (case terminal of
        None \<Rightarrow> (Inr None, t)
      | Some x \<Rightarrow>
          (case get_maybe_new_id t ''terminal_list'' [(''terminal'', PStr x)] of
             (Inl e, t') \<Rightarrow> (Inl e, t')
           | (Inr i, t') \<Rightarrow> (Inr (Some i), t')))"

section \<open>The record importer\<close>

text \<open>
  Modelled from the spec: \<^verbatim>\<open>rash/model.py\<close> (the class \<^verbatim>\<open>CommandRecord\<close>) is missing
  from the sources. The input record has the fields \<open>command\<close>, \<open>cwd\<close>,
  \<open>terminal\<close> (a string or absent), \<open>start\<close>, \<open>stop\<close> (epoch seconds or absent),
  \<open>exit_code\<close> (an integer or absent), \<open>environ\<close> (the items of a mapping, none when
  absent) and \<open>pipestatus\<close> (a sequence, empty when absent). The items of \<open>environ\<close>
  and \<open>pipestatus\<close> are whatever the capture file held, so they are Python values.
\<close>

record CommandRecord =
  command :: "string option"
  cwd :: "string option"
  terminal :: "string option"
  start :: "int option"
  stop :: "int option"
  exit_code :: "int option"
  environ :: "(pyval \<times> pyval) list"
  pipestatus :: "pyval list"

text \<open>
  \<^verbatim>\<open>convert_ts\<close> maps \<^verbatim>\<open>None\<close> to \<^verbatim>\<open>None\<close> and epoch seconds to the UTC
  \<^verbatim>\<open>datetime\<close>, which \<^verbatim>\<open>sqlite3\<close> stores as the text
  \<^verbatim>\<open>YYYY-MM-DD HH:MM:SS\<close>. The model keeps the epoch seconds as the stored value:
  the conversion is one-to-one and the order of the texts is the order of the seconds.
  \<^verbatim>\<open>utcfromtimestamp\<close> raises outside the years 1 to 9999.
\<close>

definition min_timestamp :: int where
  "min_timestamp = - 62135596800"

definition max_timestamp :: int where
  "max_timestamp = 253402300799"

definition convert_ts :: "int option \<Rightarrow> error + pyval" where
  "convert_ts ts =
     (case ts of
        None \<Rightarrow> Inr PNone
      | Some n \<Rightarrow>
          (if min_timestamp \<le> n \<and> n \<le> max_timestamp then Inr (PInt n)
           else Inl (ValueError ''year is out of range'')))"

definition id_param :: "int option \<Rightarrow> sqlval" where
  "id_param i = (case i of None \<Rightarrow> SNull | Some n \<Rightarrow> SInt n)"

definition insert_command_history ::
  "string \<Rightarrow> tables \<Rightarrow> CommandRecord \<Rightarrow> (error + int) \<times> tables"
where
  "insert_command_history wd t crec =
     (case get_maybe_new_command_id t (command crec) of
        (Inl e, t1) \<Rightarrow> (Inl e, t1)
      | (Inr command_id, t1) \<Rightarrow>
     (case get_maybe_new_directory_id wd t1 (cwd crec) of
        (Inl e, t2) \<Rightarrow> (Inl e, t2)
      | (Inr directory_id, t2) \<Rightarrow>
     (case get_maybe_new_terminal_id t2 (terminal crec) of
        (Inl e, t3) \<Rightarrow> (Inl e, t3)
      | (Inr terminal_id, t3) \<Rightarrow>
     (case convert_ts (start crec) of
        Inl e \<Rightarrow> (Inl e, t3)
      | Inr start_time \<Rightarrow>
     (case convert_ts (stop crec) of
        Inl e \<Rightarrow> (Inl e, t3)
      | Inr stop_time \<Rightarrow>
     (case bind_all [start_time, stop_time] of
        Inl e \<Rightarrow> (Inl e, t3)
      | Inr ts \<Rightarrow>
          (let (i, t4) = insert_row t3 ''command_history''
                 (zip [''command_id'', ''directory_id'', ''terminal_id'',
                       ''start_time'', ''stop_time'', ''exit_code'']
                      ([id_param command_id, id_param directory_id, id_param terminal_id]
                         @ ts @ [id_param (exit_code crec)]))
           in (Inr i, t4))))))))"

text \<open>
  \<^verbatim>\<open>_insert_environ\<close>: the loop over \<^verbatim>\<open>environ.items()\<close>; an empty (or absent)
  mapping inserts nothing.
\<close>

fun insert_environ :: "tables \<Rightarrow> int \<Rightarrow> (pyval \<times> pyval) list \<Rightarrow> (error + unit) \<times> tables" where
  "insert_environ t ch_id [] = (Inr (), t)"
| "insert_environ t ch_id ((name, v) # rest) =
     (if name = PNone \<or> v = PNone then insert_environ t ch_id rest
      else
        (case get_maybe_new_id t ''environment_variable''
                [(''variable_name'', name), (''variable_value'', v)] of
           (Inl e, t1) \<Rightarrow> (Inl e, t1)
         | (Inr ev_id, t1) \<Rightarrow>
             (let (i, t2) = insert_row t1 ''command_environment_map''
                              [(''ch_id'', SInt ch_id), (''ev_id'', SInt ev_id)]
              in insert_environ t2 ch_id rest)))"

text \<open>
  \<^verbatim>\<open>_insert_pipe_status\<close>: the loop over \<^verbatim>\<open>enumerate(pipe_status)\<close>, the position
  counted from the first argument.
\<close>

fun insert_pipe_status_from ::
  "nat \<Rightarrow> tables \<Rightarrow> int \<Rightarrow> pyval list \<Rightarrow> (error + unit) \<times> tables"
where
  "insert_pipe_status_from i t ch_id [] = (Inr (), t)"
| "insert_pipe_status_from i t ch_id (code # rest) =
     (case adapt code of
        Inl e \<Rightarrow> (Inl e, t)
      | Inr c \<Rightarrow>
          (let (r, t1) = insert_row t ''pipe_status_map''
                           [(''ch_id'', SInt ch_id), (''program_position'', SInt (int i)),
                            (''exit_code'', c)]
           in insert_pipe_status_from (Suc i) t1 ch_id rest))"

definition insert_pipe_status :: "tables \<Rightarrow> int \<Rightarrow> pyval list \<Rightarrow> (error + unit) \<times> tables" where
  "insert_pipe_status t ch_id pipe_status = insert_pipe_status_from 0 t ch_id pipe_status"

text \<open>
  The three insertion steps of \<^verbatim>\<open>import_dict\<close>, up to but without the commit.
\<close>

definition import_rows :: "string \<Rightarrow> tables \<Rightarrow> CommandRecord \<Rightarrow> (error + unit) \<times> tables" where
  "import_rows wd t crec =
     (case insert_command_history wd t crec of
        (Inl e, t1) \<Rightarrow> (Inl e, t1)
      | (Inr ch_id, t1) \<Rightarrow>
          (case insert_environ t1 ch_id (environ crec) of
             (Inl e, t2) \<Rightarrow> (Inl e, t2)
           | (Inr u, t2) \<Rightarrow> insert_pipe_status t2 ch_id (pipestatus crec)))"

section \<open>The connection manager\<close>

text \<open>
  The database file holds the committed tables. A connection is a handle (its index in
  \<open>conns\<close>); while open it carries the tables it sees, the committed ones plus its own
  uncommitted changes. \<^verbatim>\<open>commit\<close> writes them to the file; \<^verbatim>\<open>close\<close> drops what was
  not committed. An instance of \<^verbatim>\<open>DataBase\<close> has the attribute \<^verbatim>\<open>_db\<close> (here
  \<open>priv_db\<close>) and, once \<^verbatim>\<open>connection\<close> has assigned it, the attribute \<^verbatim>\<open>db\<close>.
  The process is single-threaded and the instance is the only user of the file.
\<close>

datatype conn_state = Open tables | Closed

record DataBase =
  dbfile :: tables
  conns :: "conn_state list"
  priv_db :: "nat option"
  db :: "nat option"

definition schema_version :: string where
  "schema_version = ''0.1.dev1''"

text \<open>
  \<^verbatim>\<open>_get_db\<close>: a new connection to the file (\<^verbatim>\<open>sqlite3.connect\<close>).
\<close>

definition get_db :: "DataBase \<Rightarrow> nat \<times> DataBase" where
  "get_db self = (length (conns self), self\<lparr>conns := conns self @ [Open (dbfile self)]\<rparr>)"

definition close :: "nat \<Rightarrow> DataBase \<Rightarrow> DataBase" where
  "close c self = self\<lparr>conns := (conns self)[c := Closed]\<rparr>"

text \<open>
  The tables a connection sees; any use of a closed connection raises
  \<^verbatim>\<open>ProgrammingError\<close>.
\<close>

definition cursor :: "DataBase \<Rightarrow> nat \<Rightarrow> error + tables" where
  "cursor self c =
     (if c < length (conns self)
      then (case conns self ! c of Open t \<Rightarrow> Inr t | Closed \<Rightarrow> Inl ProgrammingError)
      else Inl ProgrammingError)"

definition put_tables :: "nat \<Rightarrow> tables \<Rightarrow> DataBase \<Rightarrow> DataBase" where
  "put_tables c t self = self\<lparr>conns := (conns self)[c := Open t]\<rparr>"

definition commit :: "nat \<Rightarrow> DataBase \<Rightarrow> (error + unit) \<times> DataBase" where
  "commit c self =
     (case cursor self c of
        Inl e \<Rightarrow> (Inl e, self)
      | Inr t \<Rightarrow> (Inr (), self\<lparr>dbfile := t\<rparr>))"

text \<open>
  \<^verbatim>\<open>_init_db\<close>: the schema script creates the tables, empty, and one row of
  \<^verbatim>\<open>rash_info\<close> is inserted and committed on a connection of its own. The version of
  the package is the argument \<open>version\<close>.
\<close>

definition init_tables :: "string \<Rightarrow> tables" where
  "init_tables version =
     (\<lambda>name. [])(''rash_info'' :=
        [(1, [(''rash_version'', SText version), (''schema_version'', SText schema_version)])])"

text \<open>
  \<^verbatim>\<open>DataBase(dbpath)\<close>: \<open>existing\<close> is the content of the file at \<open>dbpath\<close>, \<open>None\<close>
  when there is no such file.
\<close>

definition DataBase_init :: "string \<Rightarrow> tables option \<Rightarrow> DataBase" where
  "DataBase_init version existing =
     (case existing of
        Some t \<Rightarrow> \<lparr>dbfile = t, conns = [], priv_db = None, db = None\<rparr>
      | None \<Rightarrow> \<lparr>dbfile = init_tables version, conns = [Closed], priv_db = None, db = None\<rparr>)"

text \<open>
  The context manager \<^verbatim>\<open>connection\<close>, applied to the body of its \<^verbatim>\<open>with\<close> block.
  A connection object is always true, open or closed, so the first branch is taken
  whenever \<^verbatim>\<open>_db\<close> is not \<^verbatim>\<open>None\<close>. In the other branch \<^verbatim>\<open>closing\<close> closes the
  connection when the block is left, normally or by an exception, and the
  \<^verbatim>\<open>finally\<close> clause assigns the attribute \<^verbatim>\<open>db\<close>.
\<close>

definition connection ::
  "(nat \<Rightarrow> DataBase \<Rightarrow> (error + 'a) \<times> DataBase) \<Rightarrow> DataBase \<Rightarrow> (error + 'a) \<times> DataBase"
where
  "connection body self =
     (case priv_db self of
        Some c \<Rightarrow> body c self
      | None \<Rightarrow>
          (let (c, s1) = get_db self;
               s2 = s1\<lparr>priv_db := Some c\<rparr>;
               (r, s3) = body c s2;
               s4 = close c s3;
               s5 = s4\<lparr>db := None\<rparr>
           in (r, s5)))"

section \<open>\<^verbatim>\<open>import_dict\<close> and the deduplication check\<close>

definition select_by_command_record :: "CommandRecord \<Rightarrow> CommandRecord list" where
  "select_by_command_record crec = []"

definition import_dict ::
  "string \<Rightarrow> DataBase \<Rightarrow> CommandRecord \<Rightarrow> bool \<Rightarrow> (error + unit) \<times> DataBase"
where
  "import_dict wd self crec check_duplicate =
     (if check_duplicate \<and> nonempty (select_by_command_record crec) then (Inr (), self)
      else
        connection
          (\<lambda>c s. case cursor s c of
                    Inl e \<Rightarrow> (Inl e, s)
                  | Inr t \<Rightarrow>
                      (case import_rows wd t crec of
                         (Inl e, t') \<Rightarrow> (Inl e, put_tables c t' s)
                       | (Inr u, t') \<Rightarrow> commit c (put_tables c t' s)))
          self)"

section \<open>What SQLite does with the compiled search statement\<close>

text \<open>
  SQLite orders values of different storage classes \<^verbatim>\<open>NULL\<close>, then numbers, then
  texts; texts compare byte by byte. \<^verbatim>\<open>ORDER BY\<close> and \<^verbatim>\<open>MAX\<close> use this order.
\<close>

instantiation sqlval :: linorder
begin

fun less_eq_sqlval :: "sqlval \<Rightarrow> sqlval \<Rightarrow> bool" where
  "less_eq_sqlval SNull b = True"
| "less_eq_sqlval (SInt i) SNull = False"
| "less_eq_sqlval (SInt i) (SInt j) = (i \<le> j)"
| "less_eq_sqlval (SInt i) (SText s) = True"
| "less_eq_sqlval (SText s) SNull = False"
| "less_eq_sqlval (SText s) (SInt j) = False"
| "less_eq_sqlval (SText s) (SText u) = (s \<le> u)"

definition less_sqlval :: "sqlval \<Rightarrow> sqlval \<Rightarrow> bool" where
  "less_sqlval a b = (a \<le> b \<and> \<not> b \<le> a)"

instance
proof
  fix x y z :: sqlval
  show "(x < y) = (x \<le> y \<and> \<not> y \<le> x)"
    by (simp add: less_sqlval_def)
  show "x \<le> x"
    by (cases x) simp_all
  show "x \<le> y \<Longrightarrow> y \<le> z \<Longrightarrow> x \<le> z"
    by (cases x; cases y; cases z) auto
  show "x \<le> y \<Longrightarrow> y \<le> x \<Longrightarrow> x = y"
    by (cases x; cases y) auto
  show "x \<le> y \<or> y \<le> x"
    by (cases x; cases y) auto
qed

end

text \<open>
  Modelled from the spec: \<^verbatim>\<open>glob(pattern, text)\<close> is SQLite's \<^verbatim>\<open>GLOB\<close> operator, a
  shell-style wildcard pattern with \<^verbatim>\<open>*\<close> (any run of characters) and \<^verbatim>\<open>?\<close> (any one
  character), every other character standing for itself, case-sensitive. The bracket
  classes of SQLite's \<^verbatim>\<open>GLOB\<close> are not modelled.
\<close>

fun glob :: "string \<Rightarrow> string \<Rightarrow> bool" where
  "glob [] s = (s = [])"
| "glob (p # ps) [] = (p = CHR ''*'' \<and> glob ps [])"
| "glob (p # ps) (c # cs) =
     (if p = CHR ''*'' then glob ps (c # cs) \<or> glob (p # ps) cs
      else if p = CHR ''?'' then glob ps cs
      else p = c \<and> glob ps cs)"

text \<open>
  The text of a value, for \<^verbatim>\<open>glob\<close>: an integer is cast to its decimal numeral.
\<close>

function decimal :: "nat \<Rightarrow> string" where
  "decimal n =
     (if n < 10 then [char_of (48 + n)]
      else decimal (n div 10) @ [char_of (48 + n mod 10)])"
  by pat_completeness auto
termination
  by (relation "measure id") auto

definition text_of :: "sqlval \<Rightarrow> string" where
  "text_of v =
     (case v of
        SNull \<Rightarrow> []
      | SInt i \<Rightarrow> (if i < 0 then CHR ''-'' # decimal (nat (- i)) else decimal (nat i))
      | SText s \<Rightarrow> s)"

definition sql_glob :: "sqlval \<Rightarrow> sqlval \<Rightarrow> bool option" where
  "sql_glob p v = (if p = SNull \<or> v = SNull then None else Some (glob (text_of p) (text_of v)))"

fun sql_or :: "bool option \<Rightarrow> bool option \<Rightarrow> bool option" where
  "sql_or (Some True) b = Some True"
| "sql_or a (Some True) = Some True"
| "sql_or (Some False) (Some False) = Some False"
| "sql_or a b = None"

fun sql_and :: "bool option \<Rightarrow> bool option \<Rightarrow> bool option" where
  "sql_and (Some False) b = Some False"
| "sql_and a (Some False) = Some False"
| "sql_and (Some True) (Some True) = Some True"
| "sql_and a b = None"

text \<open>
  The statements the compiler can emit differ in their \<^verbatim>\<open>WHERE\<close> clause (a
  conjunction of parenthesised disjunctions of sub-conditions, each with one
  placeholder) and in whether the \<open>unique\<close> pair \<^verbatim>\<open>MAX(start_time)\<close> and
  \<^verbatim>\<open>GROUP BY CL.command\<close> is present. \<open>render_stmt\<close> is the text of a statement.
\<close>

datatype cond = GlobCond string | EqCond string

record search_stmt =
  stmt_where :: "cond list list"
  stmt_unique :: bool

fun render_cond :: "cond \<Rightarrow> string" where
  "render_cond (GlobCond c) = ''glob(?, '' @ c @ '')''"
| "render_cond (EqCond c) = c @ '' = ?''"

definition render_stmt :: "search_stmt \<Rightarrow> string" where
  "render_stmt st =
     select_head
       @ join '', '' (if stmt_unique st then columns0[max_index := ''MAX(start_time)'']
                      else columns0)
       @ from_joins
       @ (if stmt_where st = [] then []
          else ''WHERE ''
                 @ join '' AND ''
                     (map (\<lambda>g. ''('' @ join '' OR '' (map render_cond g) @ '')'') (stmt_where st))
                 @ '' '')
       @ (if stmt_unique st then ''GROUP BY CL.command '' else [])
       @ order_limit"

text \<open>
  The statement compiled for \<open>np\<close> command patterns, \<open>ng\<close> directory patterns and
  \<open>nd\<close> exact directories.
\<close>

definition search_stmt_of :: "nat \<Rightarrow> nat \<Rightarrow> nat \<Rightarrow> bool \<Rightarrow> search_stmt" where
  "search_stmt_of np ng nd unique =
     \<lparr>stmt_where = filter (\<lambda>g. g \<noteq> [])
                      [replicate np (GlobCond ''CL.command''),
                       replicate ng (GlobCond ''DL.directory''),
                       replicate nd (EqCond ''DL.directory'')],
      stmt_unique = unique\<rparr>"

text \<open>
  A row of the three \<^verbatim>\<open>LEFT JOIN\<close>s: a row of \<^verbatim>\<open>command_history\<close> with the row of
  each dimension table its reference names, or none.
\<close>

type_synonym joined = "row \<times> row option \<times> row option \<times> row option"

definition left_join :: "row list \<Rightarrow> sqlval \<Rightarrow> row option list" where
  "left_join dim fk =
     (case filter (\<lambda>r. sql_eq fk (SInt (fst r)) = Some True) dim of
        [] \<Rightarrow> [None]
      | ms \<Rightarrow> map Some ms)"

definition joined_rows :: "tables \<Rightarrow> joined list" where
  "joined_rows t =
     [(h, c, d, m).
        h \<leftarrow> t ''command_history'',
        c \<leftarrow> left_join (t ''command_list'') (col h ''command_id''),
        d \<leftarrow> left_join (t ''directory_list'') (col h ''directory_id''),
        m \<leftarrow> left_join (t ''terminal_list'') (col h ''terminal_id'')]"

definition dim_col :: "row option \<Rightarrow> string \<Rightarrow> sqlval" where
  "dim_col r c = (case r of None \<Rightarrow> SNull | Some x \<Rightarrow> col x c)"

definition column_value :: "joined \<Rightarrow> string \<Rightarrow> sqlval" where
  "column_value j name =
     (case j of (h, c, d, m) \<Rightarrow>
        if name = ''CL.command'' then dim_col c ''command''
        else if name = ''DL.directory'' then dim_col d ''directory''
        else if name = ''TL.terminal'' then dim_col m ''terminal''
        else col h name)"

definition eval_cond :: "joined \<Rightarrow> cond \<Rightarrow> sqlval \<Rightarrow> bool option" where
  "eval_cond j c p =
     (case c of
        GlobCond name \<Rightarrow> sql_glob p (column_value j name)
      | EqCond name \<Rightarrow> sql_eq (column_value j name) p)"

text \<open>
  The placeholders take the bound values from left to right.
\<close>

fun eval_group :: "joined \<Rightarrow> cond list \<Rightarrow> sqlval list \<Rightarrow> bool option" where
  "eval_group j (c # cs) (p # ps) = sql_or (eval_cond j c p) (eval_group j cs ps)"
| "eval_group j cs ps = Some False"

fun eval_where :: "joined \<Rightarrow> cond list list \<Rightarrow> sqlval list \<Rightarrow> bool option" where
  "eval_where j [] ps = Some True"
| "eval_where j (g # gs) ps =
     sql_and (eval_group j g (take (length g) ps)) (eval_where j gs (drop (length g) ps))"

definition matching_rows :: "tables \<Rightarrow> cond list list \<Rightarrow> sqlval list \<Rightarrow> joined list" where
  "matching_rows t w ps = filter (\<lambda>j. eval_where j w ps = Some True) (joined_rows t)"

text \<open>
  \<^verbatim>\<open>GROUP BY CL.command\<close>: one group per value of the command text, \<^verbatim>\<open>NULL\<close> being a
  value of its own. With the single aggregate \<^verbatim>\<open>MAX(start_time)\<close>, SQLite takes the
  other columns of the result, and the \<^verbatim>\<open>start_time\<close> of \<^verbatim>\<open>ORDER BY\<close>, from a row
  of the group that holds the maximum; the model takes the first such row.
\<close>

definition command_of :: "joined \<Rightarrow> sqlval" where
  "command_of j = column_value j ''CL.command''"

definition start_of :: "joined \<Rightarrow> sqlval" where
  "start_of j = column_value j ''start_time''"

definition group_rows :: "joined list \<Rightarrow> joined list list" where
  "group_rows js =
     map (\<lambda>k. filter (\<lambda>j. command_of j = k) js) (remdups (map command_of js))"

fun maxval :: "sqlval list \<Rightarrow> sqlval" where
  "maxval [] = SNull"
| "maxval (x # xs) = fold max xs x"

definition max_row :: "joined list \<Rightarrow> joined option" where
  "max_row g =
     (case filter (\<lambda>j. start_of j = maxval (map start_of g)) g of
        [] \<Rightarrow> None
      | j # js \<Rightarrow> Some j)"

text \<open>
  The rows of the result before \<^verbatim>\<open>ORDER BY\<close>, each with its sort key.
\<close>

definition group_result :: "joined list \<Rightarrow> (sqlval \<times> sqlval list) list" where
  "group_result g =
     (case max_row g of
        None \<Rightarrow> []
      | Some rep \<Rightarrow>
          [(start_of rep,
            map (\<lambda>c. if c = ''MAX(start_time)'' then maxval (map start_of g)
                      else column_value rep c)
                (columns0[max_index := ''MAX(start_time)'']))])"

definition select_rows :: "bool \<Rightarrow> joined list \<Rightarrow> (sqlval \<times> sqlval list) list" where
  "select_rows unique js =
     (if unique then concat (map group_result (group_rows js))
      else map (\<lambda>j. (start_of j, map (column_value j) columns0)) js)"

text \<open>
  \<^verbatim>\<open>LIMIT n\<close>: at most \<open>n\<close> rows; a negative \<open>n\<close> is no bound.
\<close>

definition sql_limit :: "int \<Rightarrow> 'a list \<Rightarrow> 'a list" where
  "sql_limit n rows = (if n < 0 then rows else take (nat n) rows)"

text \<open>
  \<^verbatim>\<open>cur.execute(sql, params)\<close> for a statement of the family above, run to the end.
  The number of bound values must be the number of placeholders; the rows come in
  ascending order of the sort key (rows with equal keys in no promised order; the
  model keeps them as they stood).
\<close>

definition execute_search :: "tables \<Rightarrow> search_stmt \<Rightarrow> pyval list \<Rightarrow> error + sqlval list list" where
  "execute_search t st params =
     (case bind_all params of
        Inl e \<Rightarrow> Inl e
      | Inr ps \<Rightarrow>
          (if length ps \<noteq> length (concat (stmt_where st)) + 1 then Inl ProgrammingError
           else
             (case last ps of
                SInt n \<Rightarrow>
                  Inr (sql_limit n
                         (map snd (sort_key fst
                            (select_rows (stmt_unique st)
                               (matching_rows t (stmt_where st) ps)))))
              | SNull \<Rightarrow> Inl IntegrityError
              | SText s \<Rightarrow> Inl IntegrityError)))"

section \<open>\<^verbatim>\<open>search_command_record\<close>\<close>

text \<open>
  The generator, consumed to its end: each row becomes the keyword arguments
  \<^verbatim>\<open>dict(zip(keys, row))\<close> of a \<^verbatim>\<open>CommandRecord\<close>. SQLite receives the text
  \<open>sql\<close>; the model hands it the statement of which \<open>sql\<close> is the text.
\<close>

definition search_command_record ::
  "string \<Rightarrow> DataBase \<Rightarrow> int \<Rightarrow> string list \<Rightarrow> string list \<Rightarrow> string list \<Rightarrow> bool
     \<Rightarrow> (error + (string \<times> sqlval) list list) \<times> DataBase"
where
  "search_command_record wd self limit pattern cwds cwd_glob unique =
     (case compile_sql_search_command_record wd limit pattern cwds cwd_glob unique of
        (sql, params, ks) \<Rightarrow>
          connection
            (\<lambda>c s. case cursor s c of
                      Inl e \<Rightarrow> (Inl e, s)
                    | Inr t \<Rightarrow>
                        (case execute_search t
                                (search_stmt_of (length pattern) (length cwd_glob) (length cwds)
                                   unique)
                                params of
                           Inl e \<Rightarrow> (Inl e, s)
                         | Inr rows \<Rightarrow> (Inr (map (zip ks) rows), s)))
            self)"

section \<open>\<^verbatim>\<open>rash/export.py\<close>\<close>

text \<open>
  The world of \<^verbatim>\<open>export_run\<close>: the database file at the configured path (\<open>None\<close>
  while it does not exist), the other files by path, the standard output, and the
  log of what was done to output sinks. The configured path of the database (from
  \<^verbatim>\<open>rash/config.py\<close>, which is missing from the sources) is the one file \<open>db_file\<close>.
\<close>

datatype sink = Stdout | File string

datatype sink_event = Opened string | Wrote sink string | ClosedFile string

record world =
  db_file :: "tables option"
  files :: "string \<Rightarrow> string option"
  stdout :: string
  sink_log :: "sink_event list"

definition SUPPORTED_FORMATS :: "string list" where
  "SUPPORTED_FORMATS = [''bash'']"

text \<open>
  \<^verbatim>\<open>open(output, 'w')\<close> creates the file or truncates it.
\<close>

definition open_w :: "string \<Rightarrow> world \<Rightarrow> world" where
  "open_w path w = w\<lparr>files := (files w)(path := Some []), sink_log := sink_log w @ [Opened path]\<rparr>"

definition write_sink :: "sink \<Rightarrow> string \<Rightarrow> world \<Rightarrow> world" where
  "write_sink out txt w =
     (case out of
        Stdout \<Rightarrow> w\<lparr>stdout := stdout w @ txt, sink_log := sink_log w @ [Wrote out txt]\<rparr>
      | File path \<Rightarrow>
          w\<lparr>files := (files w)(path := Some (case files w path of None \<Rightarrow> txt | Some old \<Rightarrow> old @ txt)),
            sink_log := sink_log w @ [Wrote out txt]\<rparr>)"

definition close_file :: "string \<Rightarrow> world \<Rightarrow> world" where
  "close_file path w = w\<lparr>sink_log := sink_log w @ [ClosedFile path]\<rparr>"

text \<open>
  \<^verbatim>\<open>get_all_command_records\<close>: every row of the three joins in ascending order of
  \<^verbatim>\<open>start_time\<close>, read on the instance's connection.
\<close>

definition get_all_command_records :: "DataBase \<Rightarrow> (error + joined list) \<times> DataBase" where
  "get_all_command_records self =
     connection
       (\<lambda>c s. case cursor s c of
                 Inl e \<Rightarrow> (Inl e, s)
               | Inr t \<Rightarrow> (Inr (sort_key start_of (joined_rows t)), s))
       self"

text \<open>
  Stored timestamps are epoch seconds in this model, so \<^verbatim>\<open>get_sort_timestamp\<close> and
  \<^verbatim>\<open>datetime_to_unix\<close> read them back; \<^verbatim>\<open>None\<close> sorts first and prints no timestamp
  line. A value that is no timestamp sorts first and converts to 0.
\<close>

definition get_sort_timestamp :: "sqlval \<Rightarrow> sqlval" where
  "get_sort_timestamp dt = (case dt of SInt n \<Rightarrow> SInt n | SNull \<Rightarrow> SNull | SText s \<Rightarrow> SNull)"

definition datetime_to_unix :: "sqlval \<Rightarrow> int" where
  "datetime_to_unix dt = (case dt of SInt n \<Rightarrow> n | SNull \<Rightarrow> 0 | SText s \<Rightarrow> 0)"

definition falsy :: "sqlval \<Rightarrow> bool" where
  "falsy v = (v = SNull \<or> v = SText [] \<or> v = SInt 0)"

fun write_records :: "sink \<Rightarrow> joined list \<Rightarrow> world \<Rightarrow> world" where
  "write_records out [] w = w"
| "write_records out (crec # rest) w =
     (if falsy (command_of crec) then write_records out rest w
      else
        (let w1 = (if start_of crec \<noteq> SNull
                   then write_sink out (''#'' @ text_of (SInt (datetime_to_unix (start_of crec))) @ [CHR 0x0A]) w
                   else w);
             w2 = write_sink out (text_of (command_of crec) @ [CHR 0x0A]) w1
         in write_records out rest w2))"

text \<open>
  \<^verbatim>\<open>export_bash\<close>; the writes are taken to succeed (the handler of
  \<^verbatim>\<open>BrokenPipeError\<close> is not exercised).
\<close>

definition export_bash :: "DataBase \<Rightarrow> sink \<Rightarrow> world \<Rightarrow> (error + unit) \<times> world" where
  "export_bash self out w =
     (case get_all_command_records self of
        (Inl e, self') \<Rightarrow> (Inl e, w)
      | (Inr recs, self') \<Rightarrow>
          (Inr (), write_records out (sort_key (\<lambda>r. get_sort_timestamp (start_of r)) recs) w))"

text \<open>
  \<^verbatim>\<open>get_exporter\<close>: the dictionary has the one key \<^verbatim>\<open>bash\<close>.
\<close>

definition get_exporter ::
  "string \<Rightarrow> error + (DataBase \<Rightarrow> sink \<Rightarrow> world \<Rightarrow> (error + unit) \<times> world)"
where
  "get_exporter fmt =
     (if fmt \<noteq> ''bash''
      then Inl (ValueError (''Unsupported format: '' @ fmt @ ''. Supported formats: ''
                              @ join '', '' SUPPORTED_FORMATS))
      else Inr export_bash)"

text \<open>
  \<^verbatim>\<open>export_run(format, output)\<close>. Constructing the \<^verbatim>\<open>DataBase\<close> creates and
  initialises the database file when it does not exist.
\<close>

definition export_run :: "string \<Rightarrow> string \<Rightarrow> string \<Rightarrow> world \<Rightarrow> (error + unit) \<times> world" where
  "export_run version fmt output w =
     (let self = DataBase_init version (db_file w);
          w1 = w\<lparr>db_file := Some (dbfile self)\<rparr>;
          output_file = (if output = ''-'' then Stdout else File output);
          w2 = (if output = ''-'' then w1 else open_w output w1);
          (r, w3) = (case get_exporter fmt of
                       Inl e \<Rightarrow> (Inl e, w2)
                     | Inr exporter \<Rightarrow> exporter self output_file w2);
          w4 = (if output \<noteq> ''-'' then close_file output w3 else w3)
      in (r, w4))"

text \<open>
  Modelled from the spec: the dispatcher \<^verbatim>\<open>rash/cli.py\<close> is missing from the
  sources. The command line is parsed by the parser that
  \<^verbatim>\<open>export_add_arguments\<close> configures (\<^verbatim>\<open>--format\<close> required, one of
  \<^verbatim>\<open>SUPPORTED_FORMATS\<close>; \<^verbatim>\<open>output\<close> optional, \<^verbatim>\<open>-\<close> by default), and
  \<^verbatim>\<open>export_run\<close> is called with the parsed arguments.
\<close>

definition export_add_arguments :: "string option \<Rightarrow> string option \<Rightarrow> error + string \<times> string" where
  "export_add_arguments fmt output =
     (case fmt of
        None \<Rightarrow> Inl (ArgumentError ''the following arguments are required: --format/-f'')
      | Some f \<Rightarrow>
          (if f \<in> set SUPPORTED_FORMATS
           then Inr (f, (case output of None \<Rightarrow> ''-'' | Some out \<Rightarrow> out))
           else Inl (ArgumentError (''argument --format/-f: invalid choice: '' @ f))))"

definition export_command ::
  "string \<Rightarrow> string option \<Rightarrow> string option \<Rightarrow> world \<Rightarrow> (error + unit) \<times> world"
where
  "export_command version fmt output w =
     (case export_add_arguments fmt output of
        Inl e \<Rightarrow> (Inl e, w)
      | Inr (f, out) \<Rightarrow> export_run version f out w)"

section \<open>The wording of the specification, for comparison\<close>

text \<open>
  The clause of one criterion category with \<open>n\<close> accepted patterns: its
  sub-conditions combined with \<^verbatim>\<open>OR\<close>, in parentheses.
\<close>

definition spec_category_clause :: "string \<Rightarrow> nat \<Rightarrow> string" where
  "spec_category_clause sub n = ''('' @ join '' OR '' (replicate n sub) @ '')''"

text \<open>
  The \<^verbatim>\<open>WHERE\<close> clause for the categories, each given by its sub-condition and its
  number of patterns: the clauses of the non-empty categories joined with \<^verbatim>\<open>AND\<close>;
  nothing at all when every category is empty.
\<close>

definition spec_where_clause :: "(string \<times> nat) list \<Rightarrow> string" where
  "spec_where_clause cats =
     (let used = filter (\<lambda>c. snd c \<noteq> 0) cats
      in if used = [] then []
         else ''WHERE ''
                @ join '' AND '' (map (\<lambda>c. spec_category_clause (fst c) (snd c)) used)
                @ '' '')"

text \<open>
  A fresh instance on the file another instance has left behind: the next process.
\<close>

definition reopen :: "string \<Rightarrow> DataBase \<Rightarrow> DataBase" where
  "reopen version self = DataBase_init version (Some (dbfile self))"

text \<open>
  The key of a row for the key columns \<open>cols\<close>, and the invariant of a dimension
  table: no two of its rows have the same key.
\<close>

definition key_of :: "string list \<Rightarrow> row \<Rightarrow> sqlval list" where
  "key_of cols r = map (col r) cols"

definition no_duplicate_keys :: "tables \<Rightarrow> string \<Rightarrow> string list \<Rightarrow> bool" where
  "no_duplicate_keys t table cols = distinct (map (key_of cols) (t table))"

text \<open>
  A path with a character other than the separator.
\<close>

definition has_name :: "string \<Rightarrow> bool" where
  "has_name path = (filter (\<lambda>c. c \<noteq> CHR ''/'') path \<noteq> [])"

section \<open>Example inputs\<close>

definition record_A :: CommandRecord where
  "record_A = \<lparr>command = Some ''ls'', cwd = Some ''/home'', terminal = None,
      start = Some 100, stop = None, exit_code = None, environ = [], pipestatus = []\<rparr>"

definition record_B :: CommandRecord where
  "record_B = \<lparr>command = Some ''ls'', cwd = Some ''/home'', terminal = None,
      start = Some 200, stop = None, exit_code = None, environ = [], pipestatus = []\<rparr>"


text \<open>
  A record whose capture file held a nested list in \<open>pipestatus\<close>.
\<close>

definition record_bad :: CommandRecord where
  "record_bad = \<lparr>command = Some ''make'', cwd = Some ''/src'', terminal = None,
      start = Some 300, stop = None, exit_code = None, environ = [], pipestatus = [PObj]\<rparr>"

definition world_with_history :: world where
  "world_with_history =
     \<lparr>db_file = None, files = (\<lambda>p. None)(''out.txt'' := Some ''#1 ls''),
      stdout = [], sink_log = []\<rparr>"

text \<open>
  The instance inside a \<^verbatim>\<open>with db.connection()\<close> block that it entered holding no
  connection: a new connection is open and held.
\<close>

definition held_open :: "DataBase \<Rightarrow> DataBase" where
  "held_open self = (snd (get_db self))\<lparr>priv_db := Some (fst (get_db self))\<rparr>"

definition is_closed :: "conn_state \<Rightarrow> bool" where
  "is_closed s = (case s of Closed \<Rightarrow> True | Open t \<Rightarrow> False)"

text \<open>
  A caller that keeps the connection around, as the docstring of \<^verbatim>\<open>connection\<close>
  invites: inside one \<^verbatim>\<open>with db.connection()\<close> block it imports \<open>a\<close>, ignores the
  exception if that fails, and imports \<open>b\<close>.
\<close>

definition import_two ::
  "string \<Rightarrow> CommandRecord \<Rightarrow> CommandRecord \<Rightarrow> nat \<Rightarrow> DataBase \<Rightarrow> (error + unit) \<times> DataBase"
where
  "import_two wd a b c self =
     (case import_dict wd self a True of
        (r, self1) \<Rightarrow> import_dict wd self1 b True)"

text \<open>
  The value of an attribute of a record returned by the search.
\<close>

definition field :: "(string \<times> sqlval) list \<Rightarrow> string \<Rightarrow> sqlval" where
  "field r k = (case map_of r k of None \<Rightarrow> SNull | Some v \<Rightarrow> v)"

text \<open>
  The tables an operation on the instance works on: those of the file through a new
  connection when the instance holds none, those of the held connection when it is
  open.
\<close>

definition seen :: "DataBase \<Rightarrow> tables option" where
  "seen self =
     (case priv_db self of
        None \<Rightarrow> Some (dbfile self)
      | Some c \<Rightarrow> (case cursor self c of Inl e \<Rightarrow> None | Inr t \<Rightarrow> Some t))"

text \<open>
  The rows of the join that satisfy the criteria of a search.
\<close>

definition search_matches ::
  "string \<Rightarrow> tables \<Rightarrow> string list \<Rightarrow> string list \<Rightarrow> string list \<Rightarrow> joined list"
where
  "search_matches wd t pattern cwds cwd_glob =
     matching_rows t
       (stmt_where (search_stmt_of (length pattern) (length cwd_glob) (length cwds) True))
       (map SText pattern @ map SText cwd_glob
          @ map (\<lambda>d. SText (normalize_directory wd d)) cwds)"

text \<open>
  A record with another command, between \<open>record_A\<close> and \<open>record_B\<close> in time.
\<close>

definition record_C :: CommandRecord where
  "record_C = \<lparr>command = Some ''cd'', cwd = Some ''/home'', terminal = None,
      start = Some 150, stop = None, exit_code = None, environ = [], pipestatus = []\<rparr>"

text \<open>
  The store after the import of the given records, each by a process of its own.
\<close>

fun imported :: "CommandRecord list \<Rightarrow> DataBase" where
  "imported [] = DataBase_init ''v'' None"
| "imported (crec # rest) =
     reopen ''v'' (snd (import_dict ''/w'' (imported rest) crec True))"

text \<open>
  The invariant of the store: no dimension table has two rows with the same values in
  its key columns.
\<close>

definition dimension_invariant :: "tables \<Rightarrow> bool" where
  "dimension_invariant t =
     (no_duplicate_keys t ''command_list'' [''command'']
      \<and> no_duplicate_keys t ''directory_list'' [''directory'']
      \<and> no_duplicate_keys t ''terminal_list'' [''terminal'']
      \<and> no_duplicate_keys t ''environment_variable'' [''variable_name'', ''variable_value''])"

text \<open>
  A record with an environment and a pipe status.
\<close>

definition record_env :: CommandRecord where
  "record_env = \<lparr>command = Some ''ls'', cwd = Some ''/home/'', terminal = Some ''xterm'',
      start = Some 400, stop = Some 401, exit_code = Some 0,
      environ = [(PStr ''PATH'', PStr ''/bin''), (PStr ''EMPTY'', PNone), (PStr ''HOME'', PStr ''/root'')],
      pipestatus = [PInt 0, PInt 1]\<rparr>"

section \<open>Properties of the search compiler\<close>

lemma join_replicate_nonempty: "c \<noteq> [] \<Longrightarrow> join s (replicate (Suc n) c) \<noteq> []"
  by (cases n) auto

lemma concat_expr_repeat:
  "c \<noteq> [] \<Longrightarrow> concat_expr ''OR'' (repeat c n) =
     (if n = 0 then [] else [spec_category_clause c n])"
  by (cases n) (auto simp: concat_expr_def repeat_def spec_category_clause_def Let_def
      simp del: replicate_Suc dest: join_replicate_nonempty)

lemma add_or_match_eq:
  "format t name \<noteq> [] \<Longrightarrow> add_or_match t name args (cs, ps) =
     (cs @ (if args = [] then [] else [spec_category_clause (format t name) (length args)]),
      ps @ args)"
  by (simp add: add_or_match_def concat_expr_repeat)

lemma format_glob_command: "format glob_template ''CL.command'' = ''glob(?, CL.command)''"
  by (simp add: format_def glob_template_def)

lemma format_glob_directory: "format glob_template ''DL.directory'' = ''glob(?, DL.directory)''"
  by (simp add: format_def glob_template_def)

lemma format_eq_directory: "format eq_template ''DL.directory'' = ''DL.directory = ?''"
  by (simp add: format_def eq_template_def)

lemma compile_conditions:
  "fst (add_or_match eq_template ''DL.directory'' a3
         (add_or_match glob_template ''DL.directory'' a2
           (add_or_match glob_template ''CL.command'' a1 ([], [])))) =
   map (\<lambda>c. spec_category_clause (fst c) (snd c))
     (filter (\<lambda>c. snd c \<noteq> 0)
        [(''glob(?, CL.command)'', length a1), (''glob(?, DL.directory)'', length a2),
         (''DL.directory = ?'', length a3)])"
  by (simp add: add_or_match_eq format_glob_command format_glob_directory format_eq_directory)

lemma compile_params:
  "fst (snd (compile_sql_search_command_record wd limit pattern cwds cwd_glob unique)) =
     map PStr pattern @ map PStr cwd_glob
       @ map (\<lambda>d. PStr (normalize_directory wd d)) cwds @ [PInt limit]"
  by (simp add: compile_sql_search_command_record_def Let_def add_or_match_def)

lemma compile_sql:
  "fst (compile_sql_search_command_record wd limit pattern cwds cwd_glob unique) =
     select_head
       @ join '', '' (if unique then columns0[max_index := ''MAX(start_time)''] else columns0)
       @ from_joins
       @ spec_where_clause
           [(''glob(?, CL.command)'', length pattern),
            (''glob(?, DL.directory)'', length cwd_glob),
            (''DL.directory = ?'', length cwds)]
       @ (if unique then ''GROUP BY CL.command '' else [])
       @ order_limit"
  unfolding compile_sql_search_command_record_def Let_def fst_conv compile_conditions
  by (simp add: spec_where_clause_def Let_def format_def columns0_def max_index_def)

lemma render_search_stmt:
  "render_stmt (search_stmt_of np ng nd unique) =
     select_head
       @ join '', '' (if unique then columns0[max_index := ''MAX(start_time)''] else columns0)
       @ from_joins
       @ spec_where_clause
           [(''glob(?, CL.command)'', np),
            (''glob(?, DL.directory)'', ng),
            (''DL.directory = ?'', nd)]
       @ (if unique then ''GROUP BY CL.command '' else [])
       @ order_limit"
  by (simp add: render_stmt_def search_stmt_of_def spec_where_clause_def Let_def
      spec_category_clause_def)

text \<open>
  The statement handed to the model of SQLite is the one whose text the compiler
  returns.
\<close>

lemma render_compiled:
  "render_stmt (search_stmt_of (length pattern) (length cwd_glob) (length cwds) unique) =
     fst (compile_sql_search_command_record wd limit pattern cwds cwd_glob unique)"
  by (simp only: render_search_stmt compile_sql)

text \<open>
  Claim C4. For every search call the bound parameters are, in this order, the command
  glob patterns as supplied, the directory glob patterns, the exact directories each
  passed through \<open>normalize_directory\<close>, and last the limit; the importer resolves a
  directory through the same \<open>normalize_directory\<close>.
\<close>

theorem search_params_order:
  "fst (snd (compile_sql_search_command_record wd limit pattern cwds cwd_glob unique)) =
     map PStr pattern @ map PStr cwd_glob
       @ map (\<lambda>d. PStr (normalize_directory wd d)) cwds @ [PInt limit]
   \<and> last (fst (snd (compile_sql_search_command_record wd limit pattern cwds cwd_glob unique)))
       = PInt limit
   \<and> get_maybe_new_directory_id wd t (Some d) =
       (case get_maybe_new_id t ''directory_list''
               [(''directory'', PStr (normalize_directory wd d))] of
          (Inl e, t') \<Rightarrow> (Inl e, t')
        | (Inr i, t') \<Rightarrow> (Inr (Some i), t'))"
  by (simp add: compile_params get_maybe_new_directory_id_def)

text \<open>
  Claim C5. The compiled statement is the \<^verbatim>\<open>SELECT\<close> of the six columns over the three
  joins, then exactly the \<^verbatim>\<open>WHERE\<close> clause of the specification (per non-empty
  category its sub-conditions joined with \<^verbatim>\<open>OR\<close> in parentheses, the categories
  joined with \<^verbatim>\<open>AND\<close>), then the grouping when \<open>unique\<close> is set, and it ends in
  \<^verbatim>\<open>ORDER BY start_time LIMIT ?\<close>. With every category empty the text has no
  \<^verbatim>\<open>WHERE\<close> clause at all. The limit is the last bound parameter.
\<close>

theorem search_where_structure:
  "fst (compile_sql_search_command_record wd limit pattern cwds cwd_glob unique) =
     ''SELECT ''
       @ (if unique
          then ''CL.command, DL.directory, TL.terminal, MAX(start_time), stop_time, exit_code''
          else ''CL.command, DL.directory, TL.terminal, start_time, stop_time, exit_code'')
       @ '' FROM command_history ''
       @ ''LEFT JOIN command_list AS CL ON command_id = CL.id ''
       @ ''LEFT JOIN directory_list AS DL ON directory_id = DL.id ''
       @ ''LEFT JOIN terminal_list AS TL ON terminal_id = TL.id ''
       @ spec_where_clause
           [(''glob(?, CL.command)'', length pattern),
            (''glob(?, DL.directory)'', length cwd_glob),
            (''DL.directory = ?'', length cwds)]
       @ (if unique then ''GROUP BY CL.command '' else [])
       @ '' ORDER BY start_time LIMIT ?''
   \<and> fst (compile_sql_search_command_record wd limit [] [] [] False) =
       ''SELECT CL.command, DL.directory, TL.terminal, start_time, stop_time, exit_code''
       @ '' FROM command_history ''
       @ ''LEFT JOIN command_list AS CL ON command_id = CL.id ''
       @ ''LEFT JOIN directory_list AS DL ON directory_id = DL.id ''
       @ ''LEFT JOIN terminal_list AS TL ON terminal_id = TL.id ''
       @ '' ORDER BY start_time LIMIT ?''
   \<and> fst (compile_sql_search_command_record wd limit [] [] [] True) =
       ''SELECT CL.command, DL.directory, TL.terminal, MAX(start_time), stop_time, exit_code''
       @ '' FROM command_history ''
       @ ''LEFT JOIN command_list AS CL ON command_id = CL.id ''
       @ ''LEFT JOIN directory_list AS DL ON directory_id = DL.id ''
       @ ''LEFT JOIN terminal_list AS TL ON terminal_id = TL.id ''
       @ ''GROUP BY CL.command ''
       @ '' ORDER BY start_time LIMIT ?''
   \<and> endswith (fst (compile_sql_search_command_record wd limit pattern cwds cwd_glob unique))
         '' ORDER BY start_time LIMIT ?''
   \<and> last (fst (snd (compile_sql_search_command_record wd limit pattern cwds cwd_glob unique)))
       = PInt limit"
proof -
  have cols: "join '', '' (if unique then columns0[max_index := ''MAX(start_time)''] else columns0)
      = (if unique
          then ''CL.command, DL.directory, TL.terminal, MAX(start_time), stop_time, exit_code''
          else ''CL.command, DL.directory, TL.terminal, start_time, stop_time, exit_code'')"
    by (simp add: columns0_def max_index_def eval_nat_numeral)
  have sql: "fst (compile_sql_search_command_record wd limit pattern cwds cwd_glob unique) =
     ''SELECT ''
       @ (if unique
          then ''CL.command, DL.directory, TL.terminal, MAX(start_time), stop_time, exit_code''
          else ''CL.command, DL.directory, TL.terminal, start_time, stop_time, exit_code'')
       @ '' FROM command_history ''
       @ ''LEFT JOIN command_list AS CL ON command_id = CL.id ''
       @ ''LEFT JOIN directory_list AS DL ON directory_id = DL.id ''
       @ ''LEFT JOIN terminal_list AS TL ON terminal_id = TL.id ''
       @ spec_where_clause
           [(''glob(?, CL.command)'', length pattern),
            (''glob(?, DL.directory)'', length cwd_glob),
            (''DL.directory = ?'', length cwds)]
       @ (if unique then ''GROUP BY CL.command '' else [])
       @ '' ORDER BY start_time LIMIT ?''"
    for pattern cwds cwd_glob :: "string list" and unique
    unfolding compile_sql
    by (simp add: select_head_def from_joins_def order_limit_def columns0_def max_index_def
        eval_nat_numeral)
  have e: "endswith (xs @ '' ORDER BY start_time LIMIT ?'') '' ORDER BY start_time LIMIT ?''"
    for xs :: string
    by (simp add: endswith_def)
  have "endswith (fst (compile_sql_search_command_record wd limit pattern cwds cwd_glob unique))
         '' ORDER BY start_time LIMIT ?''"
    unfolding sql using e[of "''SELECT ''
       @ (if unique
          then ''CL.command, DL.directory, TL.terminal, MAX(start_time), stop_time, exit_code''
          else ''CL.command, DL.directory, TL.terminal, start_time, stop_time, exit_code'')
       @ '' FROM command_history ''
       @ ''LEFT JOIN command_list AS CL ON command_id = CL.id ''
       @ ''LEFT JOIN directory_list AS DL ON directory_id = DL.id ''
       @ ''LEFT JOIN terminal_list AS TL ON terminal_id = TL.id ''
       @ spec_where_clause
           [(''glob(?, CL.command)'', length pattern),
            (''glob(?, DL.directory)'', length cwd_glob),
            (''DL.directory = ?'', length cwds)]
       @ (if unique then ''GROUP BY CL.command '' else [])"]
    by (simp only: append_assoc)
  then have c4: "endswith (fst (compile_sql_search_command_record wd limit pattern cwds cwd_glob unique))
         '' ORDER BY start_time LIMIT ?''" .
  have w: "spec_where_clause [(''glob(?, CL.command)'', length ([] :: string list)),
            (''glob(?, DL.directory)'', length ([] :: string list)),
            (''DL.directory = ?'', length ([] :: string list))] = []"
    by (simp add: spec_where_clause_def)
  have c2: "fst (compile_sql_search_command_record wd limit [] [] [] False) =
       ''SELECT CL.command, DL.directory, TL.terminal, start_time, stop_time, exit_code''
       @ '' FROM command_history ''
       @ ''LEFT JOIN command_list AS CL ON command_id = CL.id ''
       @ ''LEFT JOIN directory_list AS DL ON directory_id = DL.id ''
       @ ''LEFT JOIN terminal_list AS TL ON terminal_id = TL.id ''
       @ '' ORDER BY start_time LIMIT ?''"
    unfolding sql w by simp
  have c3: "fst (compile_sql_search_command_record wd limit [] [] [] True) =
       ''SELECT CL.command, DL.directory, TL.terminal, MAX(start_time), stop_time, exit_code''
       @ '' FROM command_history ''
       @ ''LEFT JOIN command_list AS CL ON command_id = CL.id ''
       @ ''LEFT JOIN directory_list AS DL ON directory_id = DL.id ''
       @ ''LEFT JOIN terminal_list AS TL ON terminal_id = TL.id ''
       @ ''GROUP BY CL.command ''
       @ '' ORDER BY start_time LIMIT ?''"
    unfolding sql w by simp
  have c5: "last (fst (snd (compile_sql_search_command_record wd limit pattern cwds cwd_glob unique)))
       = PInt limit"
    by (simp add: compile_params)
  show ?thesis
    by (intro conjI) (rule sql c2 c3 c4 c5)+
qed

section \<open>Properties of the importer\<close>

lemma get_maybe_new_id_other:
  "get_maybe_new_id t table cols = (r, t') \<Longrightarrow> table' \<noteq> table \<Longrightarrow> t' table' = t table'"
  by (auto simp: get_maybe_new_id_def insert_row_def Let_def split: sum.splits list.splits if_splits)

lemma get_maybe_new_command_id_other:
  "get_maybe_new_command_id t c = (r, t') \<Longrightarrow> table' \<noteq> ''command_list'' \<Longrightarrow> t' table' = t table'"
  by (auto simp: get_maybe_new_command_id_def split: option.splits prod.splits sum.splits
      dest: get_maybe_new_id_other)

lemma get_maybe_new_directory_id_other:
  "get_maybe_new_directory_id wd t c = (r, t') \<Longrightarrow> table' \<noteq> ''directory_list'' \<Longrightarrow>
     t' table' = t table'"
  by (auto simp: get_maybe_new_directory_id_def Let_def split: option.splits prod.splits sum.splits
      dest: get_maybe_new_id_other)

lemma get_maybe_new_terminal_id_other:
  "get_maybe_new_terminal_id t c = (r, t') \<Longrightarrow> table' \<noteq> ''terminal_list'' \<Longrightarrow> t' table' = t table'"
  by (auto simp: get_maybe_new_terminal_id_def split: option.splits prod.splits sum.splits
      dest: get_maybe_new_id_other)

lemma insert_command_history_rows:
  assumes "insert_command_history wd t crec = (Inr i, t')"
  shows "\<exists>r. t' ''command_history'' = t ''command_history'' @ [r]"
proof -
  obtain r1 t1 where a: "get_maybe_new_command_id t (command crec) = (r1, t1)" by force
  obtain r2 t2 where b: "get_maybe_new_directory_id wd t1 (cwd crec) = (r2, t2)" by force
  obtain r3 t3 where c: "get_maybe_new_terminal_id t2 (terminal crec) = (r3, t3)" by force
  have "t1 ''command_history'' = t ''command_history''"
    using get_maybe_new_command_id_other[OF a, of "''command_history''"] by simp
  moreover have "t2 ''command_history'' = t1 ''command_history''"
    using get_maybe_new_directory_id_other[OF b, of "''command_history''"] by simp
  moreover have "t3 ''command_history'' = t2 ''command_history''"
    using get_maybe_new_terminal_id_other[OF c, of "''command_history''"] by simp
  moreover have "\<exists>r. t' ''command_history'' = t3 ''command_history'' @ [r]"
    using assms a b c
    by (auto simp: insert_command_history_def insert_row_def Let_def
        split: sum.splits prod.splits)
  ultimately show ?thesis by simp
qed

lemma insert_environ_other:
  "insert_environ t ch env = (r, t') \<Longrightarrow> table' \<noteq> ''environment_variable'' \<Longrightarrow>
     table' \<noteq> ''command_environment_map'' \<Longrightarrow> t' table' = t table'"
proof (induction env arbitrary: t)
  case Nil
  then show ?case by simp
next
  case (Cons a env)
  obtain name v where a: "a = (name, v)" by force
  show ?case
  proof (cases "name = PNone \<or> v = PNone")
    case True
    then show ?thesis using Cons by (auto simp: a)
  next
    case h: False
    obtain r1 t1 where b: "get_maybe_new_id t ''environment_variable''
                [(''variable_name'', name), (''variable_value'', v)] = (r1, t1)" by force
    have t1: "t1 table' = t table'"
      using get_maybe_new_id_other[OF b, of table'] Cons.prems by simp
    show ?thesis
    proof (cases r1)
      case (Inl e)
      then show ?thesis using Cons.prems h b t1 by (auto simp: a)
    next
      case (Inr ev)
      let ?t2 = "snd (insert_row t1 ''command_environment_map''
                              [(''ch_id'', SInt ch), (''ev_id'', SInt ev)])"
      have "insert_environ ?t2 ch env = (r, t')"
        using Cons.prems h b Inr by (auto simp: a Let_def split: prod.splits)
      then have "t' table' = ?t2 table'"
        using Cons.IH[of ?t2] Cons.prems by simp
      moreover have "?t2 table' = t1 table'"
        using Cons.prems by (simp add: insert_row_def Let_def)
      ultimately show ?thesis using t1 by simp
    qed
  qed
qed

lemma insert_pipe_status_from_other:
  "insert_pipe_status_from n t ch ps = (r, t') \<Longrightarrow> table' \<noteq> ''pipe_status_map'' \<Longrightarrow>
     t' table' = t table'"
proof (induction ps arbitrary: t n)
  case Nil
  then show ?case by simp
next
  case (Cons code ps)
  show ?case
  proof (cases "adapt code")
    case (Inl e)
    then show ?thesis using Cons.prems by simp
  next
    case (Inr c)
    let ?t1 = "snd (insert_row t ''pipe_status_map''
                           [(''ch_id'', SInt ch), (''program_position'', SInt (int n)),
                            (''exit_code'', c)])"
    have "insert_pipe_status_from (Suc n) ?t1 ch ps = (r, t')"
      using Cons.prems Inr by (auto simp: Let_def split: prod.splits)
    then have "t' table' = ?t1 table'"
      using Cons.IH[of "Suc n" ?t1] Cons.prems by simp
    moreover have "?t1 table' = t table'"
      using Cons.prems by (simp add: insert_row_def Let_def)
    ultimately show ?thesis by simp
  qed
qed

lemma import_rows_history:
  assumes "import_rows wd t crec = (Inr u, t')"
  shows "\<exists>r. t' ''command_history'' = t ''command_history'' @ [r]"
proof -
  from assms obtain ch t1 where a: "insert_command_history wd t crec = (Inr ch, t1)"
    by (auto simp: import_rows_def split: prod.splits sum.splits)
  from assms a obtain t2 where b: "insert_environ t1 ch (environ crec) = (Inr (), t2)"
    by (auto simp: import_rows_def split: prod.splits sum.splits)
  from assms a b have c: "insert_pipe_status_from 0 t2 ch (pipestatus crec) = (Inr u, t')"
    by (auto simp: import_rows_def insert_pipe_status_def split: prod.splits sum.splits)
  have "t2 ''command_history'' = t1 ''command_history''"
    using insert_environ_other[OF b, of "''command_history''"] by simp
  moreover have "t' ''command_history'' = t2 ''command_history''"
    using insert_pipe_status_from_other[OF c, of "''command_history''"] by simp
  ultimately show ?thesis using insert_command_history_rows[OF a] by simp
qed

lemma import_dict_fresh:
  assumes "priv_db self = None"
  shows "import_dict wd self crec chk =
     (case import_rows wd (dbfile self) crec of
        (Inl e, t') \<Rightarrow> (Inl e, self\<lparr>conns := conns self @ [Closed], priv_db := Some (length (conns self)), db := None\<rparr>)
      | (Inr u, t') \<Rightarrow> (Inr (), self\<lparr>dbfile := t', conns := conns self @ [Closed], priv_db := Some (length (conns self)), db := None\<rparr>))"
  using assms
  by (auto simp: import_dict_def connection_def get_db_def cursor_def nonempty_def
      select_by_command_record_def put_tables_def commit_def close_def Let_def
      split: prod.splits sum.splits)

text \<open>
  Claim C8. The duplicate lookup returns the empty list for every record, so
  \<open>import_dict\<close> with the check-duplicate flag set does exactly what it does with
  the flag clear: it goes on to the insertion; when it returns normally on an
  instance that opened its own connection, the committed \<^verbatim>\<open>command_history\<close> has
  one row more than before, whatever was stored already.
\<close>

theorem duplicate_check_never_skips:
  "select_by_command_record crec = []
   \<and> import_dict wd self crec True = import_dict wd self crec False
   \<and> (priv_db self = None \<longrightarrow> import_dict wd self crec True = (Inr (), self') \<longrightarrow>
        (\<exists>r. dbfile self' ''command_history'' = dbfile self ''command_history'' @ [r]))"
proof (intro conjI impI)
  show "select_by_command_record crec = []" by (simp add: select_by_command_record_def)
  show "import_dict wd self crec True = import_dict wd self crec False"
    by (simp add: import_dict_def select_by_command_record_def nonempty_def)
  assume a: "priv_db self = None" and b: "import_dict wd self crec True = (Inr (), self')"
  obtain r t' where c: "import_rows wd (dbfile self) crec = (r, t')" by force
  from b c have "r = Inr ()" and "dbfile self' = t'"
    by (auto simp: import_dict_fresh[OF a] split: sum.splits)
  then show "\<exists>r. dbfile self' ''command_history'' = dbfile self ''command_history'' @ [r]"
    using import_rows_history[of wd "dbfile self" crec "()" t'] c by simp
qed

theorem duplicate_check_never_skips_witness:
  "priv_db (reopen ''v'' (snd (import_dict ''/w'' (DataBase_init ''v'' None) record_A True))) = None
   \<and> fst (import_dict ''/w''
        (reopen ''v'' (snd (import_dict ''/w'' (DataBase_init ''v'' None) record_A True)))
        record_A True) = Inr ()
   \<and> (\<exists>r. dbfile (snd (import_dict ''/w''
        (reopen ''v'' (snd (import_dict ''/w'' (DataBase_init ''v'' None) record_A True)))
        record_A True)) ''command_history''
      = dbfile (reopen ''v'' (snd (import_dict ''/w'' (DataBase_init ''v'' None) record_A True)))
          ''command_history'' @ [r])"
proof -
  let ?X = "reopen ''v'' (snd (import_dict ''/w'' (DataBase_init ''v'' None) record_A True))"
  have h1: "priv_db ?X = None" by code_simp
  have h2: "fst (import_dict ''/w'' ?X record_A True) = Inr ()" by code_simp
  then have h3: "import_dict ''/w'' ?X record_A True
      = (Inr (), snd (import_dict ''/w'' ?X record_A True))"
    by (metis prod.collapse)
  show ?thesis
    using duplicate_check_never_skips[of record_A "''/w''" ?X "snd (import_dict ''/w'' ?X record_A True)"]
      h1 h2 h3 by blast
qed

section \<open>Properties of the identity resolver\<close>

lemma bind_all_length: "bind_all vs = Inr xs \<Longrightarrow> length xs = length vs"
  by (induction vs arbitrary: xs) (auto split: sum.splits)

lemma bind_all_nonnull:
  "bind_all vs = Inr xs \<Longrightarrow> PNone \<notin> set vs \<Longrightarrow> SNull \<notin> set xs"
proof (induction vs arbitrary: xs)
  case Nil
  then show ?case by simp
next
  case (Cons v vs)
  then show ?case by (cases v) (auto split: sum.splits)
qed

lemma col_zip:
  "distinct ks \<Longrightarrow> length ks = length vs \<Longrightarrow> (k, v) \<in> set (zip ks vs) \<Longrightarrow>
     col (i, zip ks vs) k = v"
  by (simp add: col_def)

lemma row_matches_itself:
  assumes "distinct ks" "length ks = length vs" "SNull \<notin> set vs"
  shows "list_all (\<lambda>kv. sql_eq (col (i, zip ks vs) (fst kv)) (snd kv) = Some True) (zip ks vs)"
proof -
  have "sql_eq (col (i, zip ks vs) (fst kv)) (snd kv) = Some True" if "kv \<in> set (zip ks vs)" for kv
  proof -
    obtain k v where kv: "kv = (k, v)" by force
    have "col (i, zip ks vs) k = v" using col_zip[OF assms(1,2)] that kv by simp
    moreover have "v \<noteq> SNull" using that kv assms(3) by (auto dest: set_zip_rightD)
    ultimately show ?thesis by (simp add: kv sql_eq_def)
  qed
  then show ?thesis by (simp add: list_all_iff)
qed

lemma row_with_key_matches:
  assumes "length ks = length vs" "SNull \<notin> set vs" "key_of ks r = vs"
  shows "list_all (\<lambda>kv. sql_eq (col r (fst kv)) (snd kv) = Some True) (zip ks vs)"
proof -
  have "sql_eq (col r (fst kv)) (snd kv) = Some True" if "kv \<in> set (zip ks vs)" for kv
  proof -
    from that obtain n where n: "n < length ks" "kv = (ks ! n, vs ! n)"
      using assms(1) by (auto simp: set_zip)
    have "col r (ks ! n) = vs ! n" using assms(3) n(1) by (auto simp: key_of_def)
    moreover have "vs ! n \<noteq> SNull" using assms(1,2) n(1) by (metis nth_mem)
    ultimately show ?thesis by (simp add: n sql_eq_def)
  qed
  then show ?thesis by (simp add: list_all_iff)
qed

lemma key_of_inserted:
  assumes "distinct ks" "length ks = length vs"
  shows "key_of ks (i, zip ks vs) = vs"
proof (rule nth_equalityI)
  show "length (key_of ks (i, zip ks vs)) = length vs"
    using assms(2) by (simp add: key_of_def)
  fix n assume "n < length (key_of ks (i, zip ks vs))"
  then have n: "n < length ks" by (simp add: key_of_def)
  then have "(ks ! n, vs ! n) \<in> set (zip ks vs)"
    using assms(2) by (auto simp: set_zip)
  then show "key_of ks (i, zip ks vs) ! n = vs ! n"
    using col_zip[OF assms] n by (simp add: key_of_def)
qed

lemma get_maybe_new_id_cases:
  assumes "get_maybe_new_id t table columns = (Inr i, t1)"
  obtains bound rest where "columns \<noteq> []" "bind_all (map snd columns) = Inr bound"
      "select_ids t table (zip (map fst columns) bound) = i # rest" "t1 = t"
  | bound where "columns \<noteq> []" "bind_all (map snd columns) = Inr bound"
      "select_ids t table (zip (map fst columns) bound) = []"
      "i = lastrowid (t table)"
      "t1 = t(table := t table @ [(i, zip (map fst columns) bound)])"
proof -
  have ne: "columns \<noteq> []"
    using assms by (auto simp: get_maybe_new_id_def)
  then obtain bound where b: "bind_all (map snd columns) = Inr bound"
    using assms by (cases "bind_all (map snd columns)") (auto simp: get_maybe_new_id_def)
  show thesis
  proof (cases "select_ids t table (zip (map fst columns) bound)")
    case Nil
    then have "i = lastrowid (t table)"
      and "t1 = t(table := t table @ [(i, zip (map fst columns) bound)])"
      using assms ne b by (auto simp: get_maybe_new_id_def insert_row_def Let_def)
    then show ?thesis using that(2) ne b Nil by blast
  next
    case (Cons j rest)
    then have "j = i" and "t1 = t"
      using assms ne b by (auto simp: get_maybe_new_id_def)
    then show ?thesis using that(1) ne b Cons by blast
  qed
qed

lemma resolve_again:
  assumes d: "distinct (map fst columns)" and n: "PNone \<notin> snd ` set columns"
    and r: "get_maybe_new_id t table columns = (Inr i, t1)"
  shows "get_maybe_new_id t1 table columns = (Inr i, t1)"
  using r
proof (cases rule: get_maybe_new_id_cases)
  case (1 bound rest)
  then show ?thesis
    by (simp add: get_maybe_new_id_def Let_def)
next
  case (2 bound)
  let ?ks = "map fst columns"
  have len: "length ?ks = length bound" using bind_all_length[OF 2(2)] by simp
  have nn: "SNull \<notin> set bound" using bind_all_nonnull[OF 2(2)] n by simp
  have "filter (\<lambda>r. list_all (\<lambda>kv. sql_eq (col r (fst kv)) (snd kv) = Some True) (zip ?ks bound))
          (t table) = []"
    using 2(3) by (simp add: select_ids_def)
  then have "select_ids t1 table (zip ?ks bound) = [i]"
    using row_matches_itself[OF d len nn, of i] by (simp add: select_ids_def 2(5))
  then show ?thesis
    using 2(1,2) by (simp add: get_maybe_new_id_def Let_def)
qed

lemma resolve_keeps_keys_distinct:
  assumes d: "distinct (map fst columns)" and n: "PNone \<notin> snd ` set columns"
    and r: "get_maybe_new_id t table columns = (Inr i, t1)"
    and inv: "no_duplicate_keys t table (map fst columns)"
  shows "no_duplicate_keys t1 table (map fst columns)"
  using r
proof (cases rule: get_maybe_new_id_cases)
  case (1 bound rest)
  then show ?thesis using inv by simp
next
  case (2 bound)
  let ?ks = "map fst columns"
  have len: "length ?ks = length bound" using bind_all_length[OF 2(2)] by simp
  have nn: "SNull \<notin> set bound" using bind_all_nonnull[OF 2(2)] n by simp
  have none: "filter (\<lambda>r. list_all (\<lambda>kv. sql_eq (col r (fst kv)) (snd kv) = Some True) (zip ?ks bound))
          (t table) = []"
    using 2(3) by (simp add: select_ids_def)
  have "bound \<notin> set (map (key_of ?ks) (t table))"
  proof
    assume "bound \<in> set (map (key_of ?ks) (t table))"
    then obtain r where r: "r \<in> set (t table)" "key_of ?ks r = bound" by auto
    from row_with_key_matches[OF len nn r(2)] r(1) none show False
      by (auto simp: filter_empty_conv)
  qed
  then show ?thesis
    using inv key_of_inserted[OF d len, of i]
    by (simp add: no_duplicate_keys_def 2(5))
qed

lemma get_maybe_new_id_error:
  "get_maybe_new_id t table cols = (Inl e, t') \<Longrightarrow> t' = t"
  by (cases "select_ids t table (zip (map fst cols) (projr (bind_all (map snd cols))))")
     (auto simp: get_maybe_new_id_def insert_row_def Let_def split: if_splits sum.splits)

lemma resolve_twice:
  assumes "distinct (map fst cols)" and "PNone \<notin> snd ` set cols"
  shows "get_maybe_new_id (snd (get_maybe_new_id t table cols)) table cols
           = get_maybe_new_id t table cols"
proof -
  obtain r t1 where r: "get_maybe_new_id t table cols = (r, t1)" by force
  show ?thesis
  proof (cases r)
    case (Inl e)
    then show ?thesis using r get_maybe_new_id_error[of t table cols e t1] by simp
  next
    case (Inr i)
    then show ?thesis using r resolve_again[OF assms, of t table i t1] by simp
  qed
qed

lemma resolve_keeps:
  assumes "distinct (map fst cols)" and "PNone \<notin> snd ` set cols"
    and "no_duplicate_keys t table (map fst cols)"
  shows "no_duplicate_keys (snd (get_maybe_new_id t table cols)) table (map fst cols)"
proof -
  obtain r t1 where r: "get_maybe_new_id t table cols = (r, t1)" by force
  show ?thesis
  proof (cases r)
    case (Inl e)
    then show ?thesis using r get_maybe_new_id_error[of t table cols e t1] assms(3) by simp
  next
    case (Inr i)
    then show ?thesis
      using r resolve_keeps_keys_distinct[OF assms(1,2) _ assms(3), of i t1] by simp
  qed
qed

lemma no_duplicate_keys_frame:
  "t' table = t table \<Longrightarrow> no_duplicate_keys t' table cols = no_duplicate_keys t table cols"
  by (simp add: no_duplicate_keys_def)

lemma resolve_other_keys:
  "table' \<noteq> table \<Longrightarrow>
     no_duplicate_keys (snd (get_maybe_new_id t table cols)) table' ks = no_duplicate_keys t table' ks"
  by (rule no_duplicate_keys_frame) (metis get_maybe_new_id_other prod.collapse)

lemma insert_row_other_keys:
  "table' \<noteq> table \<Longrightarrow>
     no_duplicate_keys (snd (insert_row t table kvs)) table' ks = no_duplicate_keys t table' ks"
  by (simp add: no_duplicate_keys_def insert_row_def Let_def)

lemma invariant_command:
  "dimension_invariant t \<Longrightarrow> dimension_invariant (snd (get_maybe_new_command_id t c))"
proof (cases c)
  case None
  assume "dimension_invariant t"
  then show ?thesis using None by (simp add: get_maybe_new_command_id_def)
next
  case (Some x)
  assume inv: "dimension_invariant t"
  have s: "snd (get_maybe_new_command_id t c)
             = snd (get_maybe_new_id t ''command_list'' [(''command'', PStr x)])"
    using Some by (simp add: get_maybe_new_command_id_def split: prod.splits sum.splits)
  have "no_duplicate_keys (snd (get_maybe_new_id t ''command_list'' [(''command'', PStr x)]))
          ''command_list'' (map fst [(''command'', PStr x)])"
    by (rule resolve_keeps) (use inv in \<open>simp_all add: dimension_invariant_def\<close>)
  then show ?thesis
    using inv unfolding s by (simp add: dimension_invariant_def resolve_other_keys)
qed

lemma invariant_directory:
  "dimension_invariant t \<Longrightarrow> dimension_invariant (snd (get_maybe_new_directory_id wd t c))"
proof (cases c)
  case None
  assume "dimension_invariant t"
  then show ?thesis using None by (simp add: get_maybe_new_directory_id_def)
next
  case (Some x)
  assume inv: "dimension_invariant t"
  let ?cols = "[(''directory'', PStr (normalize_directory wd x))]"
  have s: "snd (get_maybe_new_directory_id wd t c) = snd (get_maybe_new_id t ''directory_list'' ?cols)"
    using Some by (simp add: get_maybe_new_directory_id_def Let_def split: prod.splits sum.splits)
  have "no_duplicate_keys (snd (get_maybe_new_id t ''directory_list'' ?cols))
          ''directory_list'' (map fst ?cols)"
    by (rule resolve_keeps) (use inv in \<open>simp_all add: dimension_invariant_def\<close>)
  then show ?thesis
    using inv unfolding s by (simp add: dimension_invariant_def resolve_other_keys)
qed

lemma invariant_terminal:
  "dimension_invariant t \<Longrightarrow> dimension_invariant (snd (get_maybe_new_terminal_id t c))"
proof (cases c)
  case None
  assume "dimension_invariant t"
  then show ?thesis using None by (simp add: get_maybe_new_terminal_id_def)
next
  case (Some x)
  assume inv: "dimension_invariant t"
  have s: "snd (get_maybe_new_terminal_id t c)
             = snd (get_maybe_new_id t ''terminal_list'' [(''terminal'', PStr x)])"
    using Some by (simp add: get_maybe_new_terminal_id_def split: prod.splits sum.splits)
  have "no_duplicate_keys (snd (get_maybe_new_id t ''terminal_list'' [(''terminal'', PStr x)]))
          ''terminal_list'' (map fst [(''terminal'', PStr x)])"
    by (rule resolve_keeps) (use inv in \<open>simp_all add: dimension_invariant_def\<close>)
  then show ?thesis
    using inv unfolding s by (simp add: dimension_invariant_def resolve_other_keys)
qed

lemma invariant_environment_variable:
  assumes "dimension_invariant t" "name \<noteq> PNone" "v \<noteq> PNone"
  shows "dimension_invariant (snd (get_maybe_new_id t ''environment_variable''
            [(''variable_name'', name), (''variable_value'', v)]))"
proof -
  let ?cols = "[(''variable_name'', name), (''variable_value'', v)]"
  have "no_duplicate_keys (snd (get_maybe_new_id t ''environment_variable'' ?cols))
          ''environment_variable'' (map fst ?cols)"
    by (rule resolve_keeps) (use assms in \<open>auto simp: dimension_invariant_def\<close>)
  then show ?thesis
    using assms(1) by (simp add: dimension_invariant_def resolve_other_keys)
qed

lemma invariant_insert_row:
  "table \<notin> {''command_list'', ''directory_list'', ''terminal_list'', ''environment_variable''} \<Longrightarrow>
     dimension_invariant (snd (insert_row t table kvs)) = dimension_invariant t"
  by (auto simp: dimension_invariant_def no_duplicate_keys_def insert_row_def Let_def)


lemma invariant_insert_command_history:
  assumes "dimension_invariant t"
  shows "dimension_invariant (snd (insert_command_history wd t crec))"
proof -
  obtain r1 t1 where a: "get_maybe_new_command_id t (command crec) = (r1, t1)" by force
  obtain r2 t2 where b: "get_maybe_new_directory_id wd t1 (cwd crec) = (r2, t2)" by force
  obtain r3 t3 where c: "get_maybe_new_terminal_id t2 (terminal crec) = (r3, t3)" by force
  have i1: "dimension_invariant t1" using invariant_command[OF assms, of "command crec"] a by simp
  have i2: "dimension_invariant t2" using invariant_directory[OF i1, of wd "cwd crec"] b by simp
  have i3: "dimension_invariant t3" using invariant_terminal[OF i2, of "terminal crec"] c by simp
  have "snd (insert_command_history wd t crec) = t1
      \<or> snd (insert_command_history wd t crec) = t2
      \<or> snd (insert_command_history wd t crec) = t3
      \<or> (\<exists>kvs. snd (insert_command_history wd t crec) = snd (insert_row t3 ''command_history'' kvs))"
    using a b c
    by (auto simp: insert_command_history_def Let_def split: sum.splits prod.splits)
       (metis snd_conv)
  then show ?thesis
    using i1 i2 i3 invariant_insert_row[of "''command_history''" t3] by auto
qed

lemma invariant_insert_environ:
  "dimension_invariant t \<Longrightarrow> dimension_invariant (snd (insert_environ t ch env))"
proof (induction env arbitrary: t)
  case Nil
  then show ?case by simp
next
  case (Cons a env)
  obtain name v where a: "a = (name, v)" by force
  show ?case
  proof (cases "name = PNone \<or> v = PNone")
    case True
    then show ?thesis using Cons by (auto simp: a)
  next
    case h: False
    obtain r1 t1 where b: "get_maybe_new_id t ''environment_variable''
                [(''variable_name'', name), (''variable_value'', v)] = (r1, t1)" by force
    have i1: "dimension_invariant t1"
      using invariant_environment_variable[OF Cons.prems, of name v] h b by simp
    show ?thesis
    proof (cases r1)
      case (Inl e)
      then show ?thesis using h b i1 by (auto simp: a)
    next
      case (Inr ev)
      let ?t2 = "snd (insert_row t1 ''command_environment_map''
                              [(''ch_id'', SInt ch), (''ev_id'', SInt ev)])"
      have "dimension_invariant ?t2"
        using i1 invariant_insert_row[of "''command_environment_map''" t1] by simp
      then have "dimension_invariant (snd (insert_environ ?t2 ch env))"
        by (rule Cons.IH)
      moreover have "insert_environ t ch (a # env) = insert_environ ?t2 ch env"
        using h b Inr by (auto simp: a Let_def split: prod.splits)
      ultimately show ?thesis by simp
    qed
  qed
qed

lemma invariant_insert_pipe_status:
  "dimension_invariant t \<Longrightarrow> dimension_invariant (snd (insert_pipe_status_from n t ch ps))"
proof -
  assume inv: "dimension_invariant t"
  obtain r t' where r: "insert_pipe_status_from n t ch ps = (r, t')" by force
  have "t' ''command_list'' = t ''command_list''" "t' ''directory_list'' = t ''directory_list''"
    "t' ''terminal_list'' = t ''terminal_list''"
    "t' ''environment_variable'' = t ''environment_variable''"
    using insert_pipe_status_from_other[OF r] by simp_all
  then show ?thesis
    using inv r by (simp add: dimension_invariant_def no_duplicate_keys_def)
qed

lemma invariant_import_rows:
  assumes "dimension_invariant t"
  shows "dimension_invariant (snd (import_rows wd t crec))"
proof -
  obtain r1 t1 where a: "insert_command_history wd t crec = (r1, t1)" by force
  have i1: "dimension_invariant t1"
    using invariant_insert_command_history[OF assms, of wd crec] a by simp
  show ?thesis
  proof (cases r1)
    case (Inl e)
    then show ?thesis using a i1 by (simp add: import_rows_def)
  next
    case (Inr ch)
    obtain r2 t2 where b: "insert_environ t1 ch (environ crec) = (r2, t2)" by force
    have i2: "dimension_invariant t2"
      using invariant_insert_environ[OF i1, of ch "environ crec"] b by simp
    show ?thesis
    proof (cases r2)
      case (Inl e)
      then show ?thesis using a Inr b i2 by (simp add: import_rows_def)
    next
      case r2: (Inr u)
      have "dimension_invariant (snd (insert_pipe_status_from 0 t2 ch (pipestatus crec)))"
        by (rule invariant_insert_pipe_status[OF i2])
      then show ?thesis
        using a Inr b r2 by (simp add: import_rows_def insert_pipe_status_def)
    qed
  qed
qed

lemma invariant_import_dict:
  assumes "priv_db self = None" "dimension_invariant (dbfile self)"
  shows "dimension_invariant (dbfile (snd (import_dict wd self crec chk)))"
  using assms invariant_import_rows[OF assms(2), of wd crec]
  by (auto simp: import_dict_fresh split: prod.splits sum.splits)

lemma invariant_init: "dimension_invariant (init_tables version)"
  by (simp add: dimension_invariant_def no_duplicate_keys_def init_tables_def)


lemma command_twice:
  "get_maybe_new_command_id (snd (get_maybe_new_command_id t c)) c = get_maybe_new_command_id t c"
proof (cases c)
  case None
  then show ?thesis by (simp add: get_maybe_new_command_id_def)
next
  case (Some x)
  let ?g = "\<lambda>t. get_maybe_new_id t ''command_list'' [(''command'', PStr x)]"
  have f: "get_maybe_new_command_id t c =
      (case fst (?g t) of Inl e \<Rightarrow> Inl e | Inr i \<Rightarrow> Inr (Some i), snd (?g t))" for t
    using Some by (simp add: get_maybe_new_command_id_def split: prod.splits sum.splits)
  have "?g (snd (?g t)) = ?g t" by (rule resolve_twice) simp_all
  then show ?thesis by (simp add: f)
qed

lemma directory_twice:
  "get_maybe_new_directory_id wd (snd (get_maybe_new_directory_id wd t c)) c
     = get_maybe_new_directory_id wd t c"
proof (cases c)
  case None
  then show ?thesis by (simp add: get_maybe_new_directory_id_def)
next
  case (Some x)
  let ?g = "\<lambda>t. get_maybe_new_id t ''directory_list''
                [(''directory'', PStr (normalize_directory wd x))]"
  have f: "get_maybe_new_directory_id wd t c =
      (case fst (?g t) of Inl e \<Rightarrow> Inl e | Inr i \<Rightarrow> Inr (Some i), snd (?g t))" for t
    using Some by (simp add: get_maybe_new_directory_id_def Let_def split: prod.splits sum.splits)
  have "?g (snd (?g t)) = ?g t" by (rule resolve_twice) simp_all
  then show ?thesis by (simp add: f)
qed

lemma terminal_twice:
  "get_maybe_new_terminal_id (snd (get_maybe_new_terminal_id t c)) c = get_maybe_new_terminal_id t c"
proof (cases c)
  case None
  then show ?thesis by (simp add: get_maybe_new_terminal_id_def)
next
  case (Some x)
  let ?g = "\<lambda>t. get_maybe_new_id t ''terminal_list'' [(''terminal'', PStr x)]"
  have f: "get_maybe_new_terminal_id t c =
      (case fst (?g t) of Inl e \<Rightarrow> Inl e | Inr i \<Rightarrow> Inr (Some i), snd (?g t))" for t
    using Some by (simp add: get_maybe_new_terminal_id_def split: prod.splits sum.splits)
  have "?g (snd (?g t)) = ?g t" by (rule resolve_twice) simp_all
  then show ?thesis by (simp add: f)
qed

text \<open>
  Claim C6. The identity resolver is idempotent for every key the importer resolves.
  Resolving a command text, a directory or a terminal a second time, on the store the
  first resolution left, returns what the first returned: the same id (or \<^verbatim>\<open>None\<close>
  for \<^verbatim>\<open>None\<close>) and the store as it was, hence no second row. The same holds for an
  environment variable whose name and value are not \<^verbatim>\<open>None\<close>, the pairs the loop of
  \<^verbatim>\<open>_insert_environ\<close> resolves, and for \<^verbatim>\<open>_get_maybe_new_id\<close> on any table with any
  key of distinct columns and no \<^verbatim>\<open>None\<close> value. No dimension table ever has two
  rows with the same key: a new store has none, and every resolver, the insertion
  steps of an import and the import itself keep it so.
\<close>

theorem resolver_idempotent:
  "get_maybe_new_command_id (snd (get_maybe_new_command_id t c)) c = get_maybe_new_command_id t c
   \<and> get_maybe_new_directory_id wd (snd (get_maybe_new_directory_id wd t d)) d
       = get_maybe_new_directory_id wd t d
   \<and> get_maybe_new_terminal_id (snd (get_maybe_new_terminal_id t m)) m
       = get_maybe_new_terminal_id t m
   \<and> (name \<noteq> PNone \<longrightarrow> v \<noteq> PNone \<longrightarrow>
        get_maybe_new_id
          (snd (get_maybe_new_id t ''environment_variable''
                  [(''variable_name'', name), (''variable_value'', v)]))
          ''environment_variable'' [(''variable_name'', name), (''variable_value'', v)]
        = get_maybe_new_id t ''environment_variable''
            [(''variable_name'', name), (''variable_value'', v)])
   \<and> (dimension_invariant t \<longrightarrow>
        dimension_invariant (snd (get_maybe_new_command_id t c))
      \<and> dimension_invariant (snd (get_maybe_new_directory_id wd t d))
      \<and> dimension_invariant (snd (get_maybe_new_terminal_id t m))
      \<and> (name \<noteq> PNone \<longrightarrow> v \<noteq> PNone \<longrightarrow>
           dimension_invariant
             (snd (get_maybe_new_id t ''environment_variable''
                     [(''variable_name'', name), (''variable_value'', v)])))
      \<and> dimension_invariant (snd (import_rows wd t crec)))
   \<and> dimension_invariant (init_tables version)
   \<and> (priv_db self = None \<longrightarrow> dimension_invariant (dbfile self) \<longrightarrow>
        dimension_invariant (dbfile (snd (import_dict wd self crec chk))))
   \<and> (distinct (map fst columns) \<longrightarrow> PNone \<notin> snd ` set columns \<longrightarrow>
        get_maybe_new_id (snd (get_maybe_new_id t table columns)) table columns
          = get_maybe_new_id t table columns
      \<and> (no_duplicate_keys t table (map fst columns) \<longrightarrow>
           no_duplicate_keys (snd (get_maybe_new_id t table columns)) table (map fst columns)))"
proof (intro conjI impI)
  show "get_maybe_new_command_id (snd (get_maybe_new_command_id t c)) c = get_maybe_new_command_id t c"
    by (rule command_twice)
  show "get_maybe_new_directory_id wd (snd (get_maybe_new_directory_id wd t d)) d
       = get_maybe_new_directory_id wd t d"
    by (rule directory_twice)
  show "get_maybe_new_terminal_id (snd (get_maybe_new_terminal_id t m)) m
       = get_maybe_new_terminal_id t m"
    by (rule terminal_twice)
  show "get_maybe_new_id
          (snd (get_maybe_new_id t ''environment_variable''
                  [(''variable_name'', name), (''variable_value'', v)]))
          ''environment_variable'' [(''variable_name'', name), (''variable_value'', v)]
        = get_maybe_new_id t ''environment_variable''
            [(''variable_name'', name), (''variable_value'', v)]"
    if "name \<noteq> PNone" "v \<noteq> PNone"
    by (rule resolve_twice) (use that in auto)
  show "dimension_invariant (snd (get_maybe_new_command_id t c))" if "dimension_invariant t"
    by (rule invariant_command[OF that])
  show "dimension_invariant (snd (get_maybe_new_directory_id wd t d))" if "dimension_invariant t"
    by (rule invariant_directory[OF that])
  show "dimension_invariant (snd (get_maybe_new_terminal_id t m))" if "dimension_invariant t"
    by (rule invariant_terminal[OF that])
  show "dimension_invariant
             (snd (get_maybe_new_id t ''environment_variable''
                     [(''variable_name'', name), (''variable_value'', v)]))"
    if "dimension_invariant t" "name \<noteq> PNone" "v \<noteq> PNone"
    by (rule invariant_environment_variable[OF that])
  show "dimension_invariant (snd (import_rows wd t crec))" if "dimension_invariant t"
    by (rule invariant_import_rows[OF that])
  show "dimension_invariant (init_tables version)"
    by (rule invariant_init)
  show "dimension_invariant (dbfile (snd (import_dict wd self crec chk)))"
    if "priv_db self = None" "dimension_invariant (dbfile self)"
    by (rule invariant_import_dict[OF that])
  show "get_maybe_new_id (snd (get_maybe_new_id t table columns)) table columns
          = get_maybe_new_id t table columns"
    if "distinct (map fst columns)" "PNone \<notin> snd ` set columns"
    by (rule resolve_twice[OF that])
  show "no_duplicate_keys (snd (get_maybe_new_id t table columns)) table (map fst columns)"
    if "distinct (map fst columns)" "PNone \<notin> snd ` set columns"
      "no_duplicate_keys t table (map fst columns)"
    by (rule resolve_keeps[OF that])
qed

theorem resolver_idempotent_witness:
  "PStr ''PATH'' \<noteq> PNone \<and> PStr ''/bin'' \<noteq> PNone
   \<and> dimension_invariant (init_tables ''v'')
   \<and> priv_db (DataBase_init ''v'' None) = None
   \<and> distinct (map fst [(''command'', PStr ''ls'')]) \<and> PNone \<notin> snd ` set [(''command'', PStr ''ls'')]
   \<and> fst (get_maybe_new_command_id (init_tables ''v'') (Some ''ls'')) = Inr (Some 1)
   \<and> fst (get_maybe_new_command_id
            (snd (get_maybe_new_command_id (init_tables ''v'') (Some ''ls''))) (Some ''ls''))
       = Inr (Some 1)
   \<and> fst (get_maybe_new_id
            (snd (get_maybe_new_id (init_tables ''v'') ''environment_variable''
                    [(''variable_name'', PStr ''PATH''), (''variable_value'', PStr ''/bin'')]))
            ''environment_variable''
            [(''variable_name'', PStr ''PATH''), (''variable_value'', PStr ''/bin'')])
       = Inr 1
   \<and> dimension_invariant (snd (import_rows ''/w'' (init_tables ''v'') record_env))
   \<and> map (key_of [''variable_name'', ''variable_value''])
        (snd (import_rows ''/w'' (init_tables ''v'') record_env) ''environment_variable'')
       = [[SText ''PATH'', SText ''/bin''], [SText ''HOME'', SText ''/root'']]
   \<and> dimension_invariant
        (snd (import_rows ''/w'' (snd (import_rows ''/w'' (init_tables ''v'') record_A)) record_A))
   \<and> map (key_of [''command''])
        (snd (import_rows ''/w'' (snd (import_rows ''/w'' (init_tables ''v'') record_A)) record_A)
           ''command_list'')
       = [[SText ''ls'']]
   \<and> dimension_invariant
        (dbfile (snd (import_dict ''/w'' (DataBase_init ''v'' None) record_env True)))"
proof -
  let ?t0 = "init_tables ''v''"
  let ?t1 = "snd (import_rows ''/w'' ?t0 record_A)"
  let ?s0 = "DataBase_init ''v'' None"
  let ?ev = "[(''variable_name'', PStr ''PATH''), (''variable_value'', PStr ''/bin'')]"
  note th0 = resolver_idempotent[of ?t0 "Some ''ls''" "''/w''" "Some ''/home/''" "Some ''xterm''"
      "PStr ''PATH''" "PStr ''/bin''" record_env "''v''" ?s0 True "[(''command'', PStr ''ls'')]"
      "''command_list''"]
  note tha = resolver_idempotent[of ?t0 "Some ''ls''" "''/w''" "Some ''/home/''" "Some ''xterm''"
      "PStr ''PATH''" "PStr ''/bin''" record_A "''v''" ?s0 True "[(''command'', PStr ''ls'')]"
      "''command_list''"]
  note th1 = resolver_idempotent[of ?t1 "Some ''ls''" "''/w''" "Some ''/home/''" "Some ''xterm''"
      "PStr ''PATH''" "PStr ''/bin''" record_A "''v''" ?s0 True "[(''command'', PStr ''ls'')]"
      "''command_list''"]
  have h0: "priv_db ?s0 = None" by (simp add: DataBase_init_def)
  have h1: "dbfile ?s0 = ?t0" by (simp add: DataBase_init_def)
  have i0: "dimension_invariant ?t0" using th0 by blast
  have ie: "dimension_invariant (snd (import_rows ''/w'' ?t0 record_env))" using th0 i0 by blast
  have i1: "dimension_invariant ?t1" using tha i0 by blast
  have i2: "dimension_invariant (snd (import_rows ''/w'' ?t1 record_A))" using th1 i1 by blast
  have i3: "dimension_invariant (dbfile (snd (import_dict ''/w'' ?s0 record_env True)))"
    using th0 h0 h1 i0 by simp
  have c1: "fst (get_maybe_new_command_id ?t0 (Some ''ls'')) = Inr (Some 1)" by code_simp
  have c2: "fst (get_maybe_new_command_id (snd (get_maybe_new_command_id ?t0 (Some ''ls'')))
              (Some ''ls'')) = Inr (Some 1)"
    using th0 c1 by simp
  have e1: "fst (get_maybe_new_id ?t0 ''environment_variable'' ?ev) = Inr 1" by code_simp
  have e2: "fst (get_maybe_new_id (snd (get_maybe_new_id ?t0 ''environment_variable'' ?ev))
              ''environment_variable'' ?ev) = Inr 1"
    using th0 e1 by simp
  have k1: "map (key_of [''variable_name'', ''variable_value''])
        (snd (import_rows ''/w'' ?t0 record_env) ''environment_variable'')
       = [[SText ''PATH'', SText ''/bin''], [SText ''HOME'', SText ''/root'']]"
    by code_simp
  have k2: "map (key_of [''command''])
        (snd (import_rows ''/w'' ?t1 record_A) ''command_list'') = [[SText ''ls'']]"
    by code_simp
  show ?thesis
    using i0 h0 c1 c2 e2 ie i2 k1 k2 i3 by simp
qed

section \<open>Properties of the exporter\<close>

lemma get_exporter_unsupported:
  "fmt \<notin> set SUPPORTED_FORMATS \<Longrightarrow>
     get_exporter fmt =
       Inl (ValueError (''Unsupported format: '' @ fmt @ ''. Supported formats: bash''))"
  by (simp add: get_exporter_def SUPPORTED_FORMATS_def)

text \<open>
  Claim C9, amended. For every format outside the supported set, \<open>get_exporter\<close>
  raises a \<^verbatim>\<open>ValueError\<close> that names the format and the supported ones, and
  \<open>export_run\<close> fails with it before anything is read from the store or written
  to the sink: the only sink operations are the opening and the closing of the output
  file, and none when the output is \<^verbatim>\<open>-\<close>. At the command line the parser, whose
  \<^verbatim>\<open>--format\<close> is restricted to the supported formats, rejects the request before
  \<open>export_run\<close> is called, and the world is untouched.
\<close>

theorem unsupported_format_rejected:
  assumes "fmt \<notin> set SUPPORTED_FORMATS"
  shows "get_exporter fmt =
           Inl (ValueError (''Unsupported format: '' @ fmt @ ''. Supported formats: bash''))
    \<and> fst (export_run version fmt output w) =
           Inl (ValueError (''Unsupported format: '' @ fmt @ ''. Supported formats: bash''))
    \<and> sink_log (snd (export_run version fmt output w)) =
           sink_log w @ (if output = ''-'' then [] else [Opened output, ClosedFile output])
    \<and> stdout (snd (export_run version fmt output w)) = stdout w
    \<and> export_command version (Some fmt) out w =
           (Inl (ArgumentError (''argument --format/-f: invalid choice: '' @ fmt)), w)"
  using assms
  by (simp add: get_exporter_unsupported export_run_def Let_def open_w_def close_file_def
      export_command_def export_add_arguments_def)

theorem unsupported_format_rejected_witness:
  "''zsh'' \<notin> set SUPPORTED_FORMATS
   \<and> fst (export_run ''v'' ''zsh'' ''-'' world_with_history) =
        Inl (ValueError ''Unsupported format: zsh. Supported formats: bash'')
   \<and> sink_log (snd (export_run ''v'' ''zsh'' ''-'' world_with_history)) = []
   \<and> export_command ''v'' (Some ''zsh'') (Some ''out.txt'') world_with_history =
        (Inl (ArgumentError ''argument --format/-f: invalid choice: zsh''), world_with_history)"
proof -
  have h: "''zsh'' \<notin> set SUPPORTED_FORMATS" by (simp add: SUPPORTED_FORMATS_def)
  show ?thesis
    using h unsupported_format_rejected[OF h, of "''v''" "''-''" world_with_history "Some ''out.txt''"]
    by (simp add: world_with_history_def)
qed

text \<open>
  Claim C9 as stated fails for \<open>export_run\<close>: called with the format \<^verbatim>\<open>zsh\<close> and the
  output \<^verbatim>\<open>out.txt\<close>, it creates the database file and opens the output file, which
  loses its content, before \<open>get_exporter\<close> rejects the format.
\<close>

theorem unsupported_format_opens_sink_counterexample:
  "''zsh'' \<notin> set SUPPORTED_FORMATS
   \<and> fst (export_run ''v'' ''zsh'' ''out.txt'' world_with_history) =
        Inl (ValueError ''Unsupported format: zsh. Supported formats: bash'')
   \<and> sink_log (snd (export_run ''v'' ''zsh'' ''out.txt'' world_with_history)) =
        [Opened ''out.txt'', ClosedFile ''out.txt'']
   \<and> files world_with_history ''out.txt'' = Some ''#1 ls''
   \<and> files (snd (export_run ''v'' ''zsh'' ''out.txt'' world_with_history)) ''out.txt'' = Some []
   \<and> db_file world_with_history = None
   \<and> db_file (snd (export_run ''v'' ''zsh'' ''out.txt'' world_with_history)) \<noteq> None"
  by (simp add: SUPPORTED_FORMATS_def export_run_def get_exporter_def Let_def open_w_def
      close_file_def world_with_history_def)

section \<open>Properties of directory normalization\<close>



lemma resolve_text_total:
  "\<exists>i t1. get_maybe_new_id t table [(c, PStr x)] = (Inr i, t1)"
  by (simp add: get_maybe_new_id_def insert_row_def Let_def split: list.splits)


section \<open>Properties of the connection manager and of the transaction\<close>

lemma import_dict_held:
  assumes "priv_db self = Some c"
  shows "import_dict wd self crec chk =
     (case cursor self c of
        Inl e \<Rightarrow> (Inl e, self)
      | Inr t \<Rightarrow>
          (case import_rows wd t crec of
             (Inl e, t') \<Rightarrow> (Inl e, put_tables c t' self)
           | (Inr u, t') \<Rightarrow> (Inr (), (put_tables c t' self)\<lparr>dbfile := t'\<rparr>)))"
  using assms
  by (auto simp: import_dict_def connection_def cursor_def nonempty_def
      select_by_command_record_def put_tables_def commit_def Let_def
      split: prod.splits sum.splits conn_state.splits)

lemma search_fresh:
  assumes "priv_db self = None"
  shows "search_command_record wd self limit pattern cwds cwd_glob unique =
     (case execute_search (dbfile self)
             (search_stmt_of (length pattern) (length cwd_glob) (length cwds) unique)
             (fst (snd (compile_sql_search_command_record wd limit pattern cwds cwd_glob unique))) of
        Inl e \<Rightarrow> Inl e
      | Inr rows \<Rightarrow> Inr (map (zip keys) rows),
      self\<lparr>conns := conns self @ [Closed], priv_db := Some (length (conns self)), db := None\<rparr>)"
  using assms
  by (auto simp: search_command_record_def connection_def get_db_def cursor_def close_def Let_def
      compile_sql_search_command_record_def split: prod.splits sum.splits)

lemma search_held:
  assumes "priv_db self = Some c"
  shows "search_command_record wd self limit pattern cwds cwd_glob unique =
     (case cursor self c of
        Inl e \<Rightarrow> (Inl e, self)
      | Inr t \<Rightarrow>
         (case execute_search t
             (search_stmt_of (length pattern) (length cwd_glob) (length cwds) unique)
             (fst (snd (compile_sql_search_command_record wd limit pattern cwds cwd_glob unique))) of
            Inl e \<Rightarrow> (Inl e, self)
          | Inr rows \<Rightarrow> (Inr (map (zip keys) rows), self)))"
  using assms
  by (auto simp: search_command_record_def connection_def Let_def
      compile_sql_search_command_record_def split: prod.splits sum.splits)

text \<open>
  Claim C1, amended. The connection-scoped access reuses the connection the instance
  holds when it holds one: the body runs on that handle and no connection is opened,
  by an import or a search either. When the instance holds none, an import or a
  search opens exactly one connection, and that connection is closed when the scope
  that opened it is left, not when the instance is torn down.
\<close>

theorem connection_scope:
  "(priv_db self = Some c \<longrightarrow>
       connection body self = body c self
     \<and> length (conns (snd (import_dict wd self crec chk))) = length (conns self)
     \<and> conns (snd (search_command_record wd self limit pattern cwds cwd_glob unique)) = conns self)
   \<and> (priv_db self = None \<longrightarrow>
       conns (snd (import_dict wd self crec chk)) = conns self @ [Closed]
     \<and> conns (snd (search_command_record wd self limit pattern cwds cwd_glob unique))
         = conns self @ [Closed])"
  by (auto simp: connection_def import_dict_held import_dict_fresh search_fresh search_held
      put_tables_def split: sum.splits prod.splits)

theorem connection_scope_witness:
  "priv_db (DataBase_init ''v'' None) = None
   \<and> map is_closed (conns (snd (import_dict ''/w'' (DataBase_init ''v'' None) record_A True)))
       = map is_closed (conns (DataBase_init ''v'' None) @ [Closed])
   \<and> priv_db (held_open (DataBase_init ''v'' None)) = Some 1
   \<and> fst (import_dict ''/w'' (held_open (DataBase_init ''v'' None)) record_A True) = Inr ()
   \<and> length (conns (snd (import_dict ''/w'' (held_open (DataBase_init ''v'' None)) record_A True)))
       = length (conns (held_open (DataBase_init ''v'' None)))
   \<and> map is_closed
         (conns (snd (import_dict ''/w'' (held_open (DataBase_init ''v'' None)) record_A True)))
       = [True, False]"
proof -
  let ?s0 = "DataBase_init ''v'' None"
  let ?s1 = "held_open ?s0"
  have h0: "priv_db ?s0 = None" by (simp add: DataBase_init_def)
  have h1: "priv_db ?s1 = Some 1" by (simp add: held_open_def get_db_def DataBase_init_def)
  have h2: "fst (import_dict ''/w'' ?s1 record_A True) = Inr ()" by code_simp
  have h3: "map is_closed (conns (snd (import_dict ''/w'' ?s1 record_A True))) = [True, False]"
    by code_simp
  show ?thesis
    using connection_scope[of ?s0 0 "\<lambda>c s. (Inr (), s)" "''/w''" record_A True 10 "[]" "[]" "[]" False]
      connection_scope[of ?s1 1 "\<lambda>c s. (Inr (), s)" "''/w''" record_A True 10 "[]" "[]" "[]" False]
      h0 h1 h2 h3
    by simp
qed

text \<open>
  Claim C1 as stated fails: after a first import on a new instance has completed, the
  connection it used is closed although the instance lives on, and the instance still
  holds its handle; a second import or a search on the same instance is handed that
  closed connection and raises \<^verbatim>\<open>ProgrammingError\<close>.
\<close>

theorem connection_released_counterexample:
  "map is_closed (conns (snd (import_dict ''/w'' (DataBase_init ''v'' None) record_A True)))
     = [True, True]
   \<and> priv_db (snd (import_dict ''/w'' (DataBase_init ''v'' None) record_A True)) = Some 1
   \<and> fst (import_dict ''/w''
        (snd (import_dict ''/w'' (DataBase_init ''v'' None) record_A True)) record_B True)
     = Inl ProgrammingError
   \<and> fst (search_command_record ''/w''
        (snd (import_dict ''/w'' (DataBase_init ''v'' None) record_A True)) 10 [''ls''] [] [] True)
     = Inl ProgrammingError"
  by code_simp

text \<open>
  Claim C2, amended. If \<open>import_dict\<close> fails, it has committed nothing: the database
  file is as before the call. When the instance held no connection, the connection
  opened for the import is closed, and the rows inserted before the failure go with
  it. When the import ran on a connection held by an enclosing scope, no rollback is
  issued: that connection still sees the rows inserted before the failure.
\<close>

theorem failed_import_commits_nothing:
  assumes "import_dict wd self crec chk = (Inl e, self')"
  shows "dbfile self' = dbfile self
    \<and> (priv_db self = None \<longrightarrow> conns self' = conns self @ [Closed])
    \<and> (\<forall>c t. priv_db self = Some c \<longrightarrow> cursor self c = Inr t \<longrightarrow>
          cursor self' c = Inr (snd (import_rows wd t crec)))"
proof (cases "priv_db self")
  case None
  then show ?thesis
    using assms by (auto simp: import_dict_fresh split: prod.splits sum.splits)
next
  case (Some c)
  then show ?thesis
    using assms
    by (auto simp: import_dict_held cursor_def put_tables_def
        split: prod.splits sum.splits if_splits conn_state.splits)
qed

theorem failed_import_commits_nothing_witness:
  "fst (import_dict ''/w'' (DataBase_init ''v'' None) record_bad True) = Inl InterfaceError
   \<and> priv_db (DataBase_init ''v'' None) = None
   \<and> dbfile (snd (import_dict ''/w'' (DataBase_init ''v'' None) record_bad True))
       = dbfile (DataBase_init ''v'' None)
   \<and> map is_closed (conns (snd (import_dict ''/w'' (DataBase_init ''v'' None) record_bad True)))
       = [True, True]
   \<and> fst (import_dict ''/w'' (held_open (DataBase_init ''v'' None)) record_bad True)
       = Inl InterfaceError
   \<and> priv_db (held_open (DataBase_init ''v'' None)) = Some 1
   \<and> cursor (held_open (DataBase_init ''v'' None)) 1 = Inr (init_tables ''v'')
   \<and> dbfile (snd (import_dict ''/w'' (held_open (DataBase_init ''v'' None)) record_bad True))
       = dbfile (held_open (DataBase_init ''v'' None))
   \<and> cursor (snd (import_dict ''/w'' (held_open (DataBase_init ''v'' None)) record_bad True)) 1
       = Inr (snd (import_rows ''/w'' (init_tables ''v'') record_bad))
   \<and> map (\<lambda>r. col r ''start_time'')
        (snd (import_rows ''/w'' (init_tables ''v'') record_bad) ''command_history'') = [SInt 300]"
proof -
  let ?s0 = "DataBase_init ''v'' None"
  let ?r = "import_dict ''/w'' ?s0 record_bad True"
  let ?s1 = "held_open ?s0"
  let ?q = "import_dict ''/w'' ?s1 record_bad True"
  have h0: "priv_db ?s0 = None" by (simp add: DataBase_init_def)
  have hf: "fst ?r = Inl InterfaceError" by code_simp
  then have h1: "?r = (Inl InterfaceError, snd ?r)" by (metis prod.collapse)
  have h2: "conns ?s0 = [Closed]" by (simp add: DataBase_init_def)
  have g0: "priv_db ?s1 = Some 1" by (simp add: held_open_def get_db_def DataBase_init_def)
  have g1: "cursor ?s1 1 = Inr (init_tables ''v'')"
    by (simp add: held_open_def get_db_def DataBase_init_def cursor_def)
  have gf: "fst ?q = Inl InterfaceError" by code_simp
  then have g2: "?q = (Inl InterfaceError, snd ?q)" by (metis prod.collapse)
  have g3: "map (\<lambda>r. col r ''start_time'')
        (snd (import_rows ''/w'' (init_tables ''v'') record_bad) ''command_history'') = [SInt 300]"
    by code_simp
  show ?thesis
    using failed_import_commits_nothing[OF h1] failed_import_commits_nothing[OF g2]
      h0 hf h2 g0 g1 gf g3
    by (simp add: is_closed_def)
qed

text \<open>
  Claim C2 as stated fails inside an enclosing connection scope. The import of
  \<open>record_bad\<close> fails at its pipe status, after its \<^verbatim>\<open>command_history\<close> row was
  inserted; the caller goes on, and the commit of the next import writes that row and
  its command text to the file, without any pipe status.
\<close>

theorem failed_import_persists_counterexample:
  "fst (import_dict ''/w'' (DataBase_init ''v'' None) record_bad True) = Inl InterfaceError
   \<and> fst (connection (import_two ''/w'' record_bad record_A) (DataBase_init ''v'' None)) = Inr ()
   \<and> map (\<lambda>r. col r ''start_time'')
        (dbfile (snd (connection (import_two ''/w'' record_bad record_A) (DataBase_init ''v'' None)))
           ''command_history'') = [SInt 300, SInt 100]
   \<and> map (\<lambda>r. col r ''command'')
        (dbfile (snd (connection (import_two ''/w'' record_bad record_A) (DataBase_init ''v'' None)))
           ''command_list'') = [SText ''make'', SText ''ls'']
   \<and> dbfile (snd (connection (import_two ''/w'' record_bad record_A) (DataBase_init ''v'' None)))
        ''pipe_status_map'' = []"
  by code_simp

section \<open>Paths that differ by a trailing separator\<close>

lemma split_on_nonempty: "split_on c s \<noteq> []"
  by (induction s) (auto split: list.splits)

lemma split_on_snoc: "split_on c (s @ [c]) = split_on c s @ [[]]"
proof (induction s)
  case Nil
  show ?case by simp
next
  case (Cons x s)
  obtain w ws where w: "split_on c s = w # ws"
    using split_on_nonempty[of c s] by (cases "split_on c s") auto
  show ?case using Cons w by simp
qed

lemma norm_comps_append:
  "norm_comps ini acc (xs @ ys) = norm_comps ini (norm_comps ini acc xs) ys"
  by (induction xs arbitrary: acc) simp_all

lemma norm_comps_snoc_empty: "norm_comps ini acc (xs @ [[]]) = norm_comps ini acc xs"
  by (simp add: norm_comps_append)

lemma has_name_cases:
  assumes "has_name p"
  obtains a where "p = [a]" "a \<noteq> CHR ''/''"
  | a b where "p = [a, b]" "a \<noteq> CHR ''/'' \<or> b \<noteq> CHR ''/''"
  | a b c rest where "p = a # b # c # rest"
proof (cases p)
  case Nil
  then show ?thesis using assms by (simp add: has_name_def)
next
  case p1: (Cons a q)
  show ?thesis
  proof (cases q)
    case Nil
    then show ?thesis using assms p1 that(1) by (auto simp: has_name_def split: if_splits)
  next
    case q1: (Cons b r)
    show ?thesis
    proof (cases r)
      case Nil
      then show ?thesis using assms p1 q1 that(2) by (auto simp: has_name_def split: if_splits)
    next
      case (Cons c rest)
      then show ?thesis using p1 q1 that(3) by simp
    qed
  qed
qed

lemma initial_slashes_snoc:
  assumes "has_name p"
  shows "initial_slashes (p @ ''/'') = initial_slashes p"
  using assms
  by (cases rule: has_name_cases) (auto simp: initial_slashes_def startswith_def sep_def)

lemma normpath_snoc:
  assumes "has_name p"
  shows "normpath (p @ ''/'') = normpath p"
proof -
  have "p \<noteq> []" using assms by (auto simp: has_name_def)
  moreover have "split_on CHR ''/'' (p @ ''/'') = split_on CHR ''/'' p @ [[]]"
    using split_on_snoc[of "CHR ''/''" p] by simp
  ultimately show ?thesis
    by (simp add: normpath_def initial_slashes_snoc[OF assms] norm_comps_snoc_empty Let_def)
qed

lemma has_name_append: "has_name q \<Longrightarrow> has_name (p @ q)"
  by (simp add: has_name_def)

lemma abspath_snoc:
  assumes "has_name p"
  shows "abspath wd (p @ ''/'') = abspath wd p"
proof -
  have ne: "p \<noteq> []" using assms by (auto simp: has_name_def)
  then have ia: "isabs (p @ ''/'') = isabs p"
    by (cases p) (auto simp: isabs_def startswith_def sep_def)
  show ?thesis
  proof (cases "isabs p")
    case True
    then show ?thesis using ia normpath_snoc[OF assms] by (simp add: abspath_def)
  next
    case False
    then have j: "path_join wd (p @ ''/'') = path_join wd p @ ''/''"
      using ia by (auto simp: path_join_def isabs_def)
    have "has_name (path_join wd p)"
      using False assms by (auto simp: path_join_def isabs_def has_name_append)
    then show ?thesis
      using False ia j normpath_snoc[of "path_join wd p"] by (simp add: abspath_def)
  qed
qed

lemma normalize_snoc:
  "has_name p \<Longrightarrow> normalize_directory wd (p @ ''/'') = normalize_directory wd p"
  by (simp add: normalize_directory_def abspath_snoc)

lemma normalize_abspath:
  "abspath wd p = abspath wd q \<Longrightarrow> normalize_directory wd p = normalize_directory wd q"
  by (simp add: normalize_directory_def)

lemma resolve_directory_total:
  "\<exists>i t1. get_maybe_new_directory_id wd t (Some p) = (Inr (Some i), t1)"
  using resolve_text_total[of t "''directory_list''" "''directory''" "normalize_directory wd p"]
  by (auto simp: get_maybe_new_directory_id_def Let_def)

lemma resolve_directory_again:
  assumes "normalize_directory wd p = normalize_directory wd q"
    and "get_maybe_new_directory_id wd t (Some p) = (r, t1)"
  shows "get_maybe_new_directory_id wd t1 (Some q) = (r, t1)"
proof -
  let ?cols = "[(''directory'', PStr (normalize_directory wd p))]"
  obtain i t' where a: "get_maybe_new_id t ''directory_list'' ?cols = (Inr i, t')"
    using resolve_text_total by blast
  then have b: "r = Inr (Some i)" "t1 = t'"
    using assms(2) by (auto simp: get_maybe_new_directory_id_def Let_def)
  have "get_maybe_new_id t' ''directory_list'' ?cols = (Inr i, t')"
    by (rule resolve_again[OF _ _ a]) simp_all
  then show ?thesis
    using assms(1) b by (simp add: get_maybe_new_directory_id_def Let_def)
qed

text \<open>
  Claim C7, amended. For every path \<open>p\<close> with at least one character other than the
  separator, \<open>p\<close> and \<open>p\<close> followed by a separator normalize to the same directory;
  two paths with the same absolute resolution normalize to the same directory; and
  two paths that normalize to the same directory resolve to the same id, against the
  same store and one after the other (the second resolution adds no row). The
  resolution of a directory always returns an id. In particular \<^verbatim>\<open>/a/b/\<close> and
  \<^verbatim>\<open>/a/b\<close> normalize to the same directory.
\<close>

theorem equal_directories_same_id:
  "(has_name p \<longrightarrow> normalize_directory wd (p @ sep) = normalize_directory wd p)
   \<and> (abspath wd p = abspath wd q \<longrightarrow> normalize_directory wd p = normalize_directory wd q)
   \<and> (normalize_directory wd p = normalize_directory wd q \<longrightarrow>
        get_maybe_new_directory_id wd t (Some q) = get_maybe_new_directory_id wd t (Some p)
      \<and> get_maybe_new_directory_id wd (snd (get_maybe_new_directory_id wd t (Some p))) (Some q)
          = get_maybe_new_directory_id wd t (Some p))
   \<and> (\<exists>i. fst (get_maybe_new_directory_id wd t (Some p)) = Inr (Some i))
   \<and> normalize_directory wd ''/a/b/'' = normalize_directory wd ''/a/b''"
proof (intro conjI impI)
  show "normalize_directory wd (p @ sep) = normalize_directory wd p" if "has_name p"
    using normalize_snoc[OF that] by (simp add: sep_def)
  show "normalize_directory wd p = normalize_directory wd q" if "abspath wd p = abspath wd q"
    using normalize_abspath[OF that] .
  show "get_maybe_new_directory_id wd t (Some q) = get_maybe_new_directory_id wd t (Some p)"
    if "normalize_directory wd p = normalize_directory wd q"
    using that by (simp add: get_maybe_new_directory_id_def)
  show "get_maybe_new_directory_id wd (snd (get_maybe_new_directory_id wd t (Some p))) (Some q)
          = get_maybe_new_directory_id wd t (Some p)"
    if "normalize_directory wd p = normalize_directory wd q"
    using resolve_directory_again[OF that, of t] by (metis prod.collapse)
  show "\<exists>i. fst (get_maybe_new_directory_id wd t (Some p)) = Inr (Some i)"
    using resolve_directory_total[of wd t p] by auto
  show "normalize_directory wd ''/a/b/'' = normalize_directory wd ''/a/b''"
    using normalize_snoc[of "''/a/b''" wd] by (simp add: has_name_def)
qed

theorem equal_directories_same_id_witness:
  "has_name ''/a/b''
   \<and> normalize_directory ''/home/u'' (''/a/b'' @ sep) = normalize_directory ''/home/u'' ''/a/b''
   \<and> abspath ''/home/u'' ''/a/./b/../b'' = abspath ''/home/u'' ''/a/b''
   \<and> fst (get_maybe_new_directory_id ''/home/u'' (init_tables ''v'') (Some ''/a/b/'')) = Inr (Some 1)
   \<and> fst (get_maybe_new_directory_id ''/home/u''
        (snd (get_maybe_new_directory_id ''/home/u'' (init_tables ''v'') (Some ''/a/b/'')))
        (Some ''/a/./b/../b'')) = Inr (Some 1)"
proof -
  have h1: "has_name ''/a/b''" by (simp add: has_name_def)
  have h2: "abspath ''/home/u'' ''/a/./b/../b'' = abspath ''/home/u'' ''/a/b''" by code_simp
  have h3: "normalize_directory ''/home/u'' ''/a/b/'' = normalize_directory ''/home/u'' ''/a/./b/../b''"
    by code_simp
  have h4: "fst (get_maybe_new_directory_id ''/home/u'' (init_tables ''v'') (Some ''/a/b/'')) = Inr (Some 1)"
    by code_simp
  show ?thesis
    using equal_directories_same_id[of "''/a/b''" "''/home/u''" "''/a/b''" "init_tables ''v''"]
      equal_directories_same_id[of "''/a/b/''" "''/home/u''" "''/a/./b/../b''" "init_tables ''v''"]
      h1 h2 h3 h4
    by simp
qed

text \<open>
  Claim C7 as stated fails for paths made of separators only: \<^verbatim>\<open>/\<close> and \<^verbatim>\<open>//\<close> differ
  only by a trailing separator, but \<^verbatim>\<open>abspath\<close> keeps a leading double slash, so they
  normalize to the empty string and to \<^verbatim>\<open>/\<close> and get different ids.
\<close>

theorem root_paths_differ_counterexample:
  "''//'' = ''/'' @ sep
   \<and> normalize_directory ''/home/u'' ''/'' = []
   \<and> normalize_directory ''/home/u'' ''//'' = ''/''
   \<and> fst (get_maybe_new_directory_id ''/home/u'' (init_tables ''v'') (Some ''/'')) = Inr (Some 1)
   \<and> fst (get_maybe_new_directory_id ''/home/u''
        (snd (get_maybe_new_directory_id ''/home/u'' (init_tables ''v'') (Some ''/'')))
        (Some ''//'')) = Inr (Some 2)"
  by code_simp

section \<open>Properties of the search with the unique flag\<close>

lemma insort_key_map:
  "insort_key f (g x) (map g xs) = map g (insort_key (\<lambda>y. f (g y)) x xs)"
  by (induction xs) simp_all

lemma sort_key_map:
  "sort_key f (map g xs) = map g (sort_key (\<lambda>y. f (g y)) xs)"
  by (induction xs) (simp_all add: insort_key_map)

lemma maxval_Max: "xs \<noteq> [] \<Longrightarrow> maxval xs = Max (set xs)"
proof (cases xs)
  case Nil
  assume "xs \<noteq> []"
  with Nil show ?thesis by simp
next
  case (Cons a list)
  show ?thesis
    unfolding Cons using Max.set_eq_fold[of a list] by simp
qed

lemma max_row_some:
  assumes "g \<noteq> []"
  obtains rep where "max_row g = Some rep" "rep \<in> set g"
    "start_of rep = Max (start_of ` set g)"
proof -
  have m: "maxval (map start_of g) = Max (start_of ` set g)"
    using assms maxval_Max[of "map start_of g"] by simp
  have "Max (start_of ` set g) \<in> start_of ` set g"
    using assms by (intro Max_in) auto
  then obtain j where j: "j \<in> set g" "start_of j = Max (start_of ` set g)" by auto
  then have "filter (\<lambda>j. start_of j = maxval (map start_of g)) g \<noteq> []"
    using m by (auto simp: filter_empty_conv)
  then obtain rep rest where r: "filter (\<lambda>j. start_of j = maxval (map start_of g)) g = rep # rest"
    by (cases "filter (\<lambda>j. start_of j = maxval (map start_of g)) g") auto
  then have "rep \<in> set (filter (\<lambda>j. start_of j = maxval (map start_of g)) g)" by simp
  then have "rep \<in> set g" "start_of rep = Max (start_of ` set g)" using m by auto
  moreover have "max_row g = Some rep" using r by (simp add: max_row_def)
  ultimately show thesis using that by blast
qed

lemma unique_columns:
  "columns0[max_index := ''MAX(start_time)''] =
     [''CL.command'', ''DL.directory'', ''TL.terminal'', ''MAX(start_time)'',
      ''stop_time'', ''exit_code'']"
  by (simp add: columns0_def max_index_def eval_nat_numeral)

lemma group_nonempty:
  "k \<in> set (map command_of js) \<Longrightarrow> filter (\<lambda>j. command_of j = k) js \<noteq> []"
  by (auto simp: filter_empty_conv)

text \<open>
  The result row of the group of the command text \<open>k\<close>.
\<close>

lemma group_result_row:
  assumes "k \<in> command_of ` set js"
  obtains row where
    "group_result (filter (\<lambda>j. command_of j = k) js)
       = [(Max (start_of ` {j \<in> set js. command_of j = k}), row)]"
    "length row = 6" "row ! 0 = k"
    "row ! 3 = Max (start_of ` {j \<in> set js. command_of j = k})"
proof -
  let ?g = "filter (\<lambda>j. command_of j = k) js"
  have ne: "?g \<noteq> []" using assms by (auto simp: filter_empty_conv)
  have s: "set ?g = {j \<in> set js. command_of j = k}" by auto
  from max_row_some[OF ne] obtain rep where rep: "max_row ?g = Some rep" "rep \<in> set ?g"
    "start_of rep = Max (start_of ` set ?g)" by blast
  have m: "maxval (map start_of ?g) = Max (start_of ` set ?g)"
    using ne maxval_Max[of "map start_of ?g"] by simp
  have c: "column_value rep ''CL.command'' = k"
    using rep(2) by (simp add: command_of_def)
  let ?row = "map (\<lambda>c. if c = ''MAX(start_time)'' then maxval (map start_of ?g)
                      else column_value rep c)
                (columns0[max_index := ''MAX(start_time)''])"
  have "group_result ?g = [(Max (start_of ` set ?g), ?row)]"
    using rep(1,3) by (simp add: group_result_def)
  moreover have "length ?row = 6" by (simp add: unique_columns)
  moreover have "?row ! 0 = k" using c by (simp add: unique_columns)
  moreover have "?row ! 3 = Max (start_of ` set ?g)"
    using m by (simp add: unique_columns eval_nat_numeral)
  ultimately show thesis using that s by simp
qed

lemma concat_singletons:
  "(\<And>k. k \<in> set ks \<Longrightarrow> F k = [G k]) \<Longrightarrow> concat (map F ks) = map G ks"
  by (induction ks) simp_all

lemma select_rows_unique:
  "select_rows True js =
     map (\<lambda>k. hd (group_result (filter (\<lambda>j. command_of j = k) js)))
       (remdups (map command_of js))"
proof -
  have "concat (map (\<lambda>k. group_result (filter (\<lambda>j. command_of j = k) js))
                  (remdups (map command_of js)))
        = map (\<lambda>k. hd (group_result (filter (\<lambda>j. command_of j = k) js)))
            (remdups (map command_of js))"
  proof (rule concat_singletons)
    fix k assume "k \<in> set (remdups (map command_of js))"
    then have "k \<in> command_of ` set js" by simp
    then show "group_result (filter (\<lambda>j. command_of j = k) js)
        = [hd (group_result (filter (\<lambda>j. command_of j = k) js))]"
      by (rule group_result_row) simp
  qed
  then show ?thesis by (simp add: select_rows_def group_rows_def comp_def)
qed

lemma field_of_row:
  assumes "length row = 6"
  shows "field (zip keys row) ''command'' = row ! 0" "field (zip keys row) ''start'' = row ! 3"
proof -
  obtain a b c d e f where "row = [a, b, c, d, e, f]"
    using assms by (auto simp: length_Suc_conv eval_nat_numeral)
  then show "field (zip keys row) ''command'' = row ! 0"
    and "field (zip keys row) ''start'' = row ! 3"
    by (simp_all add: field_def keys_def eval_nat_numeral)
qed

lemma sql_limit_map: "sql_limit n (map f xs) = map f (sql_limit n xs)"
  by (simp add: sql_limit_def take_map)

lemma sql_limit_props:
  "set (sql_limit n xs) \<subseteq> set xs"
  "distinct xs \<Longrightarrow> distinct (sql_limit n xs)"
  "sorted (map f xs) \<Longrightarrow> sorted (map f (sql_limit n xs))"
  "length (sql_limit n xs) = (if n < 0 then length xs else min (nat n) (length xs))"
  by (auto simp: sql_limit_def set_take_subset take_map[symmetric] sorted_wrt_take
      dest: in_set_takeD)

text \<open>
  The rows a search with \<open>unique\<close> set returns, from the command texts in the order of
  their maxima.
\<close>

lemma unique_result:
  fixes js :: "joined list" and limit :: int
  defines "U \<equiv> \<lambda>k. hd (group_result (filter (\<lambda>j. command_of j = k) js))"
  defines "ks \<equiv> sql_limit limit (sort_key (\<lambda>k. fst (U k)) (remdups (map command_of js)))"
  defines "rs \<equiv> map (zip keys) (sql_limit limit (map snd (sort_key fst (select_rows True js))))"
  shows "map (\<lambda>r. field r ''command'') rs = ks"
    and "map (\<lambda>r. field r ''start'') rs
          = map (\<lambda>k. Max (start_of ` {j \<in> set js. command_of j = k})) ks"
    and "distinct ks" and "set ks \<subseteq> command_of ` set js"
    and "sorted (map (\<lambda>k. Max (start_of ` {j \<in> set js. command_of j = k})) ks)"
    and "length ks = (if limit < 0 then card (command_of ` set js)
                      else min (nat limit) (card (command_of ` set js)))"
proof -
  let ?M = "\<lambda>k. Max (start_of ` {j \<in> set js. command_of j = k})"
  let ?all = "remdups (map command_of js)"
  have sub: "set ks \<subseteq> command_of ` set js"
    using sql_limit_props(1)[of limit "sort_key (\<lambda>k. fst (U k)) ?all"] by (auto simp: ks_def)
  have U: "fst (U k) = ?M k \<and> length (snd (U k)) = 6 \<and> snd (U k) ! 0 = k \<and> snd (U k) ! 3 = ?M k"
    if "k \<in> command_of ` set js" for k
    using that by (rule group_result_row) (simp add: U_def)
  have rs: "rs = map (\<lambda>k. zip keys (snd (U k))) ks"
    by (simp add: rs_def ks_def select_rows_unique sort_key_map sql_limit_map U_def comp_def)
  show "map (\<lambda>r. field r ''command'') rs = ks"
    unfolding rs using sub U by (auto simp: comp_def field_of_row intro!: map_idI)
  show "map (\<lambda>r. field r ''start'') rs = map ?M ks"
    unfolding rs using sub U by (auto simp: comp_def field_of_row)
  show "distinct ks"
    by (simp add: ks_def sql_limit_props(2))
  show "set ks \<subseteq> command_of ` set js" by (rule sub)
  have "sorted (map (\<lambda>k. fst (U k)) ks)"
    unfolding ks_def by (rule sql_limit_props(3)) (rule sorted_sort_key)
  moreover have "map (\<lambda>k. fst (U k)) ks = map ?M ks"
    using sub U by auto
  ultimately show "sorted (map ?M ks)" by simp
  show "length ks = (if limit < 0 then card (command_of ` set js)
                      else min (nat limit) (card (command_of ` set js)))"
    by (simp add: ks_def sql_limit_props(4) length_remdups_card_conv)
qed

lemma bind_all_append:
  "bind_all xs = Inr as \<Longrightarrow> bind_all ys = Inr bs \<Longrightarrow> bind_all (xs @ ys) = Inr (as @ bs)"
  by (induction xs arbitrary: as) (auto split: sum.splits)

lemma bind_all_texts: "bind_all (map PStr xs) = Inr (map SText xs)"
  by (induction xs) simp_all

lemma bind_compiled:
  "bind_all (fst (snd (compile_sql_search_command_record wd limit pattern cwds cwd_glob unique)))
     = Inr (map SText pattern @ map SText cwd_glob
              @ map (\<lambda>d. SText (normalize_directory wd d)) cwds @ [SInt limit])"
proof -
  have "bind_all (map PStr (map (normalize_directory wd) cwds))
          = Inr (map SText (map (normalize_directory wd) cwds))"
    by (rule bind_all_texts)
  then have "bind_all (map (\<lambda>d. PStr (normalize_directory wd d)) cwds)
          = Inr (map (\<lambda>d. SText (normalize_directory wd d)) cwds)"
    by (simp add: comp_def)
  then show ?thesis
    unfolding compile_params
    by (intro bind_all_append bind_all_texts) simp_all
qed

lemma placeholders_compiled:
  "length (concat (stmt_where (search_stmt_of np ng nd unique))) = np + ng + nd"
  by (simp add: search_stmt_of_def)

lemma eval_where_more_params:
  "length (concat w) \<le> length ps \<Longrightarrow> eval_where j w (ps @ extra) = eval_where j w ps"
  by (induction w arbitrary: ps) simp_all

lemma matching_rows_more_params:
  "length (concat w) \<le> length ps \<Longrightarrow> matching_rows t w (ps @ extra) = matching_rows t w ps"
  by (simp add: matching_rows_def eval_where_more_params)

lemma execute_compiled_unique:
  "execute_search t (search_stmt_of (length pattern) (length cwd_glob) (length cwds) True)
     (fst (snd (compile_sql_search_command_record wd limit pattern cwds cwd_glob True)))
   = Inr (sql_limit limit (map snd (sort_key fst
            (select_rows True (search_matches wd t pattern cwds cwd_glob)))))"
proof -
  let ?ps = "map SText pattern @ map SText cwd_glob
              @ map (\<lambda>d. SText (normalize_directory wd d)) cwds"
  let ?w = "stmt_where (search_stmt_of (length pattern) (length cwd_glob) (length cwds) True)"
  have "matching_rows t ?w (?ps @ [SInt limit]) = matching_rows t ?w ?ps"
    by (rule matching_rows_more_params) (simp add: placeholders_compiled)
  then show ?thesis
    by (simp add: execute_search_def bind_compiled placeholders_compiled search_matches_def
        search_stmt_of_def)
qed

lemma search_on_seen:
  assumes "seen self = Some t"
  shows "fst (search_command_record wd self limit pattern cwds cwd_glob True)
    = Inr (map (zip keys) (sql_limit limit (map snd (sort_key fst
            (select_rows True (search_matches wd t pattern cwds cwd_glob))))))"
proof (cases "priv_db self")
  case None
  then show ?thesis
    using assms by (simp add: search_fresh execute_compiled_unique seen_def)
next
  case (Some c)
  then have "cursor self c = Inr t"
    using assms by (simp add: seen_def split: sum.splits)
  then show ?thesis
    using Some by (simp add: search_held execute_compiled_unique)
qed

lemma sql_or_true: "sql_or a b = Some True \<longleftrightarrow> a = Some True \<or> b = Some True"
  by (cases "(a, b)" rule: sql_or.cases) auto

lemma sql_and_true: "sql_and a b = Some True \<longleftrightarrow> a = Some True \<and> b = Some True"
  by (cases "(a, b)" rule: sql_and.cases) auto

lemma eval_group_replicate:
  "length ps = n \<Longrightarrow>
     eval_group j (replicate n c) ps = Some True \<longleftrightarrow> (\<exists>p \<in> set ps. eval_cond j c p = Some True)"
  by (induction ps arbitrary: n) (auto simp: sql_or_true)

lemma eval_where_groups:
  "length gs = length pss \<Longrightarrow> list_all2 (\<lambda>g ps. length g = length ps) gs pss \<Longrightarrow>
     eval_where j (filter (\<lambda>g. g \<noteq> []) gs) (concat pss) = Some True
       \<longleftrightarrow> list_all2 (\<lambda>g ps. g = [] \<or> eval_group j g ps = Some True) gs pss"
  by (induction gs pss rule: list_induct2) (auto simp: sql_and_true)

text \<open>
  The rows a search matches: a row of the join passes when, for each category with a
  criterion, one of the criteria of the category holds of it.
\<close>

lemma search_matches_iff:
  "j \<in> set (search_matches wd t pattern cwds cwd_glob) \<longleftrightarrow>
     j \<in> set (joined_rows t)
   \<and> (pattern = [] \<or>
        (\<exists>p \<in> set pattern. sql_glob (SText p) (column_value j ''CL.command'') = Some True))
   \<and> (cwd_glob = [] \<or>
        (\<exists>p \<in> set cwd_glob. sql_glob (SText p) (column_value j ''DL.directory'') = Some True))
   \<and> (cwds = [] \<or>
        (\<exists>d \<in> set cwds.
           sql_eq (column_value j ''DL.directory'') (SText (normalize_directory wd d)) = Some True))"
proof -
  let ?gs = "[replicate (length pattern) (GlobCond ''CL.command''),
              replicate (length cwd_glob) (GlobCond ''DL.directory''),
              replicate (length cwds) (EqCond ''DL.directory'')]"
  let ?pss = "[map SText pattern, map SText cwd_glob,
               map (\<lambda>d. SText (normalize_directory wd d)) cwds]"
  have "eval_where j (filter (\<lambda>g. g \<noteq> []) ?gs) (concat ?pss) = Some True
       \<longleftrightarrow> list_all2 (\<lambda>g ps. g = [] \<or> eval_group j g ps = Some True) ?gs ?pss"
    by (rule eval_where_groups) simp_all
  then show ?thesis
    by (simp add: search_matches_def matching_rows_def search_stmt_of_def
        eval_group_replicate eval_cond_def)
qed

lemma scenario_rows:
  "map snd (sort_key fst (select_rows True
      (search_matches ''/w'' (dbfile (imported [record_B, record_A])) [''ls''] [] [])))
   = [[SText ''ls'', SText ''/home'', SNull, SInt 200, SNull, SNull]]"
  by code_simp

lemma scenario_seen:
  "seen (imported [record_B, record_A]) = Some (dbfile (imported [record_B, record_A]))"
  by (simp add: seen_def reopen_def DataBase_init_def)

text \<open>
  Claim C3, amended. With the unique flag set, on an instance whose connection is
  usable, the search returns rows no two of which have the same command text; each
  row's command text is the command text of a matching row, and its start is the
  maximum start time over the matching rows with that command text; the rows are in
  ascending order of that start; and their number is the number of distinct command
  texts among the matching rows, cut to the limit when the limit is not negative.
  After the import of A (\<^verbatim>\<open>ls\<close>, start 100) and B (\<^verbatim>\<open>ls\<close>, start 200), the search with
  the unique flag, the command pattern \<^verbatim>\<open>ls\<close> and a limit other than 0 returns
  exactly one row, and its start is 200.
\<close>

theorem unique_search_one_row_per_command:
  "(seen self = Some t \<longrightarrow>
      (\<exists>rs. fst (search_command_record wd self limit pattern cwds cwd_glob True) = Inr rs
        \<and> distinct (map (\<lambda>r. field r ''command'') rs)
        \<and> (\<forall>r \<in> set rs.
              field r ''command'' \<in> command_of ` set (search_matches wd t pattern cwds cwd_glob)
            \<and> field r ''start'' =
                Max (start_of ` {j \<in> set (search_matches wd t pattern cwds cwd_glob).
                                 command_of j = field r ''command''}))
        \<and> sorted (map (\<lambda>r. field r ''start'') rs)
        \<and> length rs =
            (if limit < 0 then card (command_of ` set (search_matches wd t pattern cwds cwd_glob))
             else min (nat limit)
                    (card (command_of ` set (search_matches wd t pattern cwds cwd_glob))))))
   \<and> (limit \<noteq> 0 \<longrightarrow>
        fst (search_command_record ''/w'' (imported [record_B, record_A]) limit [''ls''] [] [] True)
          = Inr [[(''command'', SText ''ls''), (''cwd'', SText ''/home''), (''terminal'', SNull),
                  (''start'', SInt 200), (''stop'', SNull), (''exit_code'', SNull)]])"
proof (intro conjI impI)
  assume seen: "seen self = Some t"
  let ?js = "search_matches wd t pattern cwds cwd_glob"
  let ?M = "\<lambda>k. Max (start_of ` {j \<in> set ?js. command_of j = k})"
  define rs where
    "rs = map (zip keys) (sql_limit limit (map snd (sort_key fst (select_rows True ?js))))"
  note u = unique_result[where js="?js" and limit=limit, folded rs_def]
  have c: "map (\<lambda>r. field r ''start'') rs = map (\<lambda>r. ?M (field r ''command'')) rs"
    using u(2) unfolding u(1)[symmetric] by (simp add: comp_def)
  have "fst (search_command_record wd self limit pattern cwds cwd_glob True) = Inr rs"
    unfolding rs_def by (rule search_on_seen[OF seen])
  moreover have "distinct (map (\<lambda>r. field r ''command'') rs)"
    using u(3) unfolding u(1) .
  moreover have "\<forall>r \<in> set rs. field r ''command'' \<in> command_of ` set ?js
      \<and> field r ''start'' = ?M (field r ''command'')"
  proof
    fix r assume r: "r \<in> set rs"
    then have "field r ''command'' \<in> set (map (\<lambda>r. field r ''command'') rs)"
      by (rule imageI[of r "set rs" "\<lambda>r. field r ''command''", unfolded set_map[symmetric]])
    then have "field r ''command'' \<in> command_of ` set ?js"
      using u(4) unfolding u(1) by blast
    moreover have "field r ''start'' = ?M (field r ''command'')"
      using c r unfolding map_eq_conv by blast
    ultimately show "field r ''command'' \<in> command_of ` set ?js
      \<and> field r ''start'' = ?M (field r ''command'')" by simp
  qed
  moreover have "sorted (map (\<lambda>r. field r ''start'') rs)"
    using u(5) unfolding u(2) .
  moreover have "length rs = (if limit < 0 then card (command_of ` set ?js)
             else min (nat limit) (card (command_of ` set ?js)))"
    using u(6) unfolding u(1)[symmetric] by simp
  ultimately show "\<exists>rs. fst (search_command_record wd self limit pattern cwds cwd_glob True) = Inr rs
        \<and> distinct (map (\<lambda>r. field r ''command'') rs)
        \<and> (\<forall>r \<in> set rs.
              field r ''command'' \<in> command_of ` set ?js
            \<and> field r ''start'' = Max (start_of ` {j \<in> set ?js. command_of j = field r ''command''}))
        \<and> sorted (map (\<lambda>r. field r ''start'') rs)
        \<and> length rs =
            (if limit < 0 then card (command_of ` set ?js)
             else min (nat limit) (card (command_of ` set ?js)))"
    by blast
next
  assume "limit \<noteq> 0"
  then have l: "sql_limit limit [[SText ''ls'', SText ''/home'', SNull, SInt 200, SNull, SNull]]
      = [[SText ''ls'', SText ''/home'', SNull, SInt 200, SNull, SNull]]"
    by (simp add: sql_limit_def)
  have "fst (search_command_record ''/w'' (imported [record_B, record_A]) limit [''ls''] [] [] True)
      = Inr (map (zip keys) (sql_limit limit (map snd (sort_key fst (select_rows True
          (search_matches ''/w'' (dbfile (imported [record_B, record_A])) [''ls''] [] []))))))"
    by (rule search_on_seen[OF scenario_seen])
  also have "\<dots> = Inr [[(''command'', SText ''ls''), (''cwd'', SText ''/home''), (''terminal'', SNull),
                  (''start'', SInt 200), (''stop'', SNull), (''exit_code'', SNull)]]"
    unfolding scenario_rows l by (simp add: keys_def)
  finally show "fst (search_command_record ''/w'' (imported [record_B, record_A]) limit [''ls''] [] [] True)
          = Inr [[(''command'', SText ''ls''), (''cwd'', SText ''/home''), (''terminal'', SNull),
                  (''start'', SInt 200), (''stop'', SNull), (''exit_code'', SNull)]]" .
qed

theorem unique_search_one_row_per_command_witness:
  "seen (imported [record_B, record_C, record_A])
     = Some (dbfile (imported [record_B, record_C, record_A]))
   \<and> (10::int) \<noteq> 0
   \<and> (\<exists>rs. fst (search_command_record ''/w'' (imported [record_B, record_C, record_A])
                 10 [] [] [] True) = Inr rs
        \<and> distinct (map (\<lambda>r. field r ''command'') rs)
        \<and> sorted (map (\<lambda>r. field r ''start'') rs)
        \<and> map (\<lambda>r. field r ''start'') rs = [SInt 150, SInt 200])
   \<and> fst (search_command_record ''/w'' (imported [record_B, record_A]) 10 [''ls''] [] [] True)
          = Inr [[(''command'', SText ''ls''), (''cwd'', SText ''/home''), (''terminal'', SNull),
                  (''start'', SInt 200), (''stop'', SNull), (''exit_code'', SNull)]]"
proof -
  let ?s = "imported [record_B, record_C, record_A]"
  have h1: "seen ?s = Some (dbfile ?s)"
    by (simp add: seen_def reopen_def DataBase_init_def)
  have h2: "(10::int) \<noteq> 0" by simp
  have h3: "map (\<lambda>r. field r ''start'')
      (case fst (search_command_record ''/w'' ?s 10 [] [] [] True) of Inr rs \<Rightarrow> rs | Inl e \<Rightarrow> [])
      = [SInt 150, SInt 200]"
    by code_simp
  show ?thesis
    using unique_search_one_row_per_command[of ?s "dbfile ?s" "''/w''" 10 "[]" "[]" "[]"] h1 h2 h3
    by auto
qed

text \<open>
  Claim C3 as stated fails where the limit cuts the result: with the limit 0 the
  search for \<^verbatim>\<open>ls\<close> after the import of A and B returns no row, and with the limit 1
  and the two command texts \<^verbatim>\<open>ls\<close> and \<^verbatim>\<open>cd\<close> stored it returns the one row of
  \<^verbatim>\<open>cd\<close>.
\<close>

theorem unique_search_limit_counterexample:
  "fst (search_command_record ''/w'' (imported [record_B, record_A]) 0 [''ls''] [] [] True) = Inr []
   \<and> map (\<lambda>r. col r ''command'')
        (dbfile (imported [record_B, record_C, record_A]) ''command_list'')
       = [SText ''ls'', SText ''cd'']
   \<and> fst (search_command_record ''/w'' (imported [record_B, record_C, record_A]) 1 [] [] [] True)
       = Inr [[(''command'', SText ''cd''), (''cwd'', SText ''/home''), (''terminal'', SNull),
               (''start'', SInt 150), (''stop'', SNull), (''exit_code'', SNull)]]"
  by code_simp

end
